theory Spec2Isabelle
  imports Complex_Main
begin

section \<open>C doubles\<close>

text \<open>
  The source computes with C \<open>double\<close>s, IEEE 754 binary64 numbers under the default
  rounding mode.  A double is a finite number \<open>m * 2 ^ e\<close> with an integer \<open>m\<close> below
  \<open>2 ^ 53\<close> in magnitude and \<open>-1074 \<le> e \<le> 971\<close>, an infinity, or NaN.  Every
  arithmetic operation computes the exact real result and rounds it to the nearest double,
  ties to the even significand; results of magnitude \<open>2 ^ 1024\<close> or more after rounding
  overflow to an infinity, and results below the smallest subnormal round to zero.
  The two zeros of IEEE 754 are identified (they compare equal in C); a nonzero number
  divided by zero is the infinity with the sign of the numerator.
\<close>

datatype dbl = Fin real | PInf | NInf | NaN

text \<open>Rounding a real to the nearest integer, ties to even.\<close>

definition round_half_even :: "real \<Rightarrow> int" where
  "round_half_even q =
     (let f = \<lfloor>q\<rfloor>; d = q - of_int f
      in if d < 1 / 2 then f else if 1 / 2 < d then f + 1 else if even f then f else f + 1)"

text \<open>The exponent of the unit in the last place of the doubles around \<open>x\<close>: 52 below
  the binary exponent of \<open>x\<close>, and \<open>-1074\<close> throughout the subnormal range.\<close>

definition ulp_exp :: "real \<Rightarrow> int" where
  "ulp_exp x = max (\<lfloor>log 2 \<bar>x\<bar>\<rfloor> - 52) (- 1074)"

text \<open>The nearest multiple of the unit in the last place.\<close>

definition round_to_double :: "real \<Rightarrow> real" where
  "round_to_double x =
     (if x = 0 then 0
      else of_int (round_half_even (x / 2 powi ulp_exp x)) * 2 powi ulp_exp x)"

definition overflow_threshold :: real where
  "overflow_threshold = 2 ^ 1024"

text \<open>Rounding a real result to a double, with overflow to the infinities.\<close>

definition rnd :: "real \<Rightarrow> dbl" where
  "rnd x =
     (let y = round_to_double x
      in if overflow_threshold \<le> y then PInf
         else if y \<le> - overflow_threshold then NInf
         else Fin y)"

text \<open>The infinity with the sign of \<open>s\<close>; NaN when \<open>s\<close> is zero.\<close>

definition inf_of_sign :: "real \<Rightarrow> dbl" where
  "inf_of_sign s = (if 0 < s then PInf else if s < 0 then NInf else NaN)"

fun sign_of :: "dbl \<Rightarrow> real" where
  "sign_of (Fin a) = sgn a"
| "sign_of PInf = 1"
| "sign_of NInf = - 1"
| "sign_of NaN = 0"

fun dneg :: "dbl \<Rightarrow> dbl" where
  "dneg (Fin a) = Fin (- a)"
| "dneg PInf = NInf"
| "dneg NInf = PInf"
| "dneg NaN = NaN"

fun dadd :: "dbl \<Rightarrow> dbl \<Rightarrow> dbl" where
  "dadd NaN b = NaN"
| "dadd a NaN = NaN"
| "dadd (Fin a) (Fin b) = rnd (a + b)"
| "dadd PInf NInf = NaN"
| "dadd NInf PInf = NaN"
| "dadd PInf b = PInf"
| "dadd a PInf = PInf"
| "dadd NInf b = NInf"
| "dadd a NInf = NInf"

fun dmul :: "dbl \<Rightarrow> dbl \<Rightarrow> dbl" where
  "dmul NaN b = NaN"
| "dmul a NaN = NaN"
| "dmul (Fin a) (Fin b) = rnd (a * b)"
| "dmul a b = inf_of_sign (sign_of a * sign_of b)"

fun ddiv :: "dbl \<Rightarrow> dbl \<Rightarrow> dbl" where
  "ddiv NaN b = NaN"
| "ddiv a NaN = NaN"
| "ddiv (Fin a) (Fin b) = (if b = 0 then inf_of_sign a else rnd (a / b))"
| "ddiv (Fin a) b = Fin 0"
| "ddiv a (Fin b) = (if b = 0 then a else inf_of_sign (sign_of a * sgn b))"
| "ddiv a b = NaN"

fun dless :: "dbl \<Rightarrow> dbl \<Rightarrow> bool" where
  "dless NaN b = False"
| "dless a NaN = False"
| "dless (Fin a) (Fin b) = (a < b)"
| "dless a NInf = False"
| "dless PInf b = False"
| "dless a b = True"

fun dless_eq :: "dbl \<Rightarrow> dbl \<Rightarrow> bool" where
  "dless_eq NaN b = False"
| "dless_eq a NaN = False"
| "dless_eq (Fin a) (Fin b) = (a \<le> b)"
| "dless_eq NInf b = True"
| "dless_eq a PInf = True"
| "dless_eq a b = False"

text \<open>\<open>cos\<close> of \<open>math.h\<close>, taken as the correctly rounded cosine: NaN outside the
  finite values.\<close>

fun dcos :: "dbl \<Rightarrow> dbl" where
  "dcos (Fin a) = rnd (cos a)"
| "dcos a = NaN"

text \<open>The C operators \<open>+ - * / < <= > >=\<close> on doubles.\<close>

instantiation dbl :: "{plus, minus, uminus, times, inverse, ord}"
begin

definition plus_dbl :: "dbl \<Rightarrow> dbl \<Rightarrow> dbl" where
  "plus_dbl a b = dadd a b"

definition minus_dbl :: "dbl \<Rightarrow> dbl \<Rightarrow> dbl" where
  "minus_dbl a b = dadd a (dneg b)"

definition uminus_dbl :: "dbl \<Rightarrow> dbl" where
  "uminus_dbl a = dneg a"

definition times_dbl :: "dbl \<Rightarrow> dbl \<Rightarrow> dbl" where
  "times_dbl a b = dmul a b"

definition divide_dbl :: "dbl \<Rightarrow> dbl \<Rightarrow> dbl" where
  "divide_dbl a b = ddiv a b"

definition inverse_dbl :: "dbl \<Rightarrow> dbl" where
  "inverse_dbl a = ddiv (Fin 1) a"

definition less_dbl :: "dbl \<Rightarrow> dbl \<Rightarrow> bool" where
  "less_dbl a b = dless a b"

definition less_eq_dbl :: "dbl \<Rightarrow> dbl \<Rightarrow> bool" where
  "less_eq_dbl a b = dless_eq a b"

instance ..

end

fun is_finite :: "dbl \<Rightarrow> bool" where
  "is_finite (Fin a) = True"
| "is_finite a = False"

text \<open>\<open>M_PI\<close> of \<open>math.h\<close>, the double \<open>3.141592653589793\<close> nearest to pi, and
  \<open>INFINITY\<close>.\<close>

definition M_PI :: dbl where
  "M_PI = Fin (884279719003555 / 2 ^ 48)"

definition INFINITY :: dbl where
  "INFINITY = PInf"

text \<open>The double nearest to one tenth, the value of the C literal \<open>0.1\<close>.\<close>

definition one_tenth :: dbl where
  "one_tenth = Fin (3602879701896397 / 2 ^ 55)"


section \<open>The planet trap\<close>

text \<open>
  \<^verbatim>\<open>rebx_calculate_planet_trap(r, h, dedge)\<close>: the multiplier of the migration rate
  at orbital radius \<open>r\<close>, for an inner disc edge at \<open>dedge\<close> of fractional width \<open>h\<close>.
\<close>

definition rebx_calculate_planet_trap :: "dbl \<Rightarrow> dbl \<Rightarrow> dbl \<Rightarrow> dbl" where
  "rebx_calculate_planet_trap r h dedge =
     (if r > dedge * (Fin 1 + h) then Fin 1
      else if dedge * (Fin 1 - h) < r then
        Fin 5.5 * dcos (((dedge * (Fin 1 + h) - r) * Fin 2 * M_PI) / (Fin 4 * h * dedge)) - Fin 4.5
      else Fin (- 10))"


section \<open>Simulation data\<close>

text \<open>\<^verbatim>\<open>struct reb_particle\<close>: the fields the force reads, and the parameters attached
  to the particle (\<^verbatim>\<open>p->ap\<close>), by name.\<close>

record reb_particle =
  x :: dbl
  y :: dbl
  z :: dbl
  vx :: dbl
  vy :: dbl
  vz :: dbl
  m :: dbl
  ap :: "string \<rightharpoonup> dbl"

text \<open>\<^verbatim>\<open>struct reb_vec3d\<close>.\<close>

record reb_vec3d =
  x :: dbl
  y :: dbl
  z :: dbl

text \<open>\<^verbatim>\<open>struct reb_orbit\<close>: the elements named by the spec.  The force reads the
  semimajor axis \<^verbatim>\<open>o.a\<close> only.\<close>

record reb_orbit =
  orbit_a :: dbl
  orbit_e :: dbl
  orbit_inc :: dbl

text \<open>\<^verbatim>\<open>struct reb_simulation\<close>: the gravitational constant.\<close>

record reb_simulation =
  G :: dbl

text \<open>Modelled from the spec: \<^verbatim>\<open>enum REBX_COORDINATES\<close>, declared in reboundx.h:
  the coordinate frames Jacobi, barycentric and particle.\<close>

datatype REBX_COORDINATES =
  REBX_COORDINATES_JACOBI | REBX_COORDINATES_BARYCENTRIC | REBX_COORDINATES_PARTICLE

text \<open>\<^verbatim>\<open>struct rebx_force\<close>: the parameters attached to the force (\<^verbatim>\<open>force->ap\<close>),
  by name.  A registered name has one type, so the doubles and the \<open>coordinates\<close>
  enum are kept in two maps.\<close>

record rebx_force =
  ap_double :: "string \<rightharpoonup> dbl"
  ap_coordinates :: "string \<rightharpoonup> REBX_COORDINATES"

text \<open>Modelled from the spec: \<^verbatim>\<open>rebx_get_param\<close>, the named optional-parameter lookup
  of the reboundx core: the value attached under the name, or \<open>None\<close> for the null
  pointer returned when the parameter is not set.\<close>

definition rebx_get_param :: "(string \<rightharpoonup> 'v) \<Rightarrow> string \<Rightarrow> 'v option" where
  "rebx_get_param params name = params name"

text \<open>Reading through a null pointer is the one way the force can fail.\<close>

datatype rebx_error = NullPointerDereference


section \<open>The force on one body\<close>

text \<open>
  \<^verbatim>\<open>rebx_calculating_orbits_with_inner_disc_edge(sim, force, p, source)\<close>.
  The conversion to orbital elements, \<^verbatim>\<open>reb_tools_particle_to_orbit_err\<close>, belongs to
  REBOUND and is a parameter: it returns the orbit and the error flag it writes.
  The flag is never read.  \<^verbatim>\<open>*h\<close> and \<^verbatim>\<open>*dedge\<close> are read without a null check,
  when \<^verbatim>\<open>tau_a\<close> is set.
\<close>

definition rebx_calculating_orbits_with_inner_disc_edge ::
  "(dbl \<Rightarrow> reb_particle \<Rightarrow> reb_particle \<Rightarrow> reb_orbit \<times> int) \<Rightarrow>
   reb_simulation \<Rightarrow> rebx_force \<Rightarrow> reb_particle \<Rightarrow> reb_particle \<Rightarrow> rebx_error + reb_vec3d" where
  "rebx_calculating_orbits_with_inner_disc_edge reb_tools_particle_to_orbit_err sim force p source =
     (let tau_a_ptr = rebx_get_param (ap p) ''tau_a'';
          tau_e_ptr = rebx_get_param (ap p) ''tau_e'';
          tau_inc_ptr = rebx_get_param (ap p) ''tau_inc'';
          dedge = rebx_get_param (ap_double force) ''inner_disc_edge'';
          h = rebx_get_param (ap_double force) ''disc_edge_width'';
          dvx = vx p - vx source;
          dvy = vy p - vy source;
          dvz = vz p - vz source;
          dx = reb_particle.x p - reb_particle.x source;
          dy = reb_particle.y p - reb_particle.y source;
          dz = reb_particle.z p - reb_particle.z source;
          r2 = dx * dx + dy * dy + dz * dz;
          (orbit, err) = reb_tools_particle_to_orbit_err (G sim) p source;
          a0 = orbit_a orbit
      in case (case tau_a_ptr of
                 None \<Rightarrow> Inr (Fin 0)
               | Some tau_a \<Rightarrow>
                   (case (h, dedge) of
                      (Some h', Some dedge') \<Rightarrow> Inr (rebx_calculate_planet_trap a0 h' dedge' / tau_a)
                    | _ \<Rightarrow> Inl NullPointerDereference)) of
           Inl fault \<Rightarrow> Inl fault
         | Inr invtau_a \<Rightarrow>
             (let tau_e = (case tau_e_ptr of None \<Rightarrow> INFINITY | Some t \<Rightarrow> t);
                  tau_inc = (case tau_inc_ptr of None \<Rightarrow> INFINITY | Some t \<Rightarrow> t);
                  a = \<lparr>x = dvx * invtau_a / Fin 2,
                       y = dvy * invtau_a / Fin 2,
                       z = dvz * invtau_a / Fin 2\<rparr>
              in if tau_e < INFINITY \<or> tau_inc < INFINITY then
                   (let vdotr = dx * dvx + dy * dvy + dz * dvz;
                        prefac = Fin 2 * vdotr / r2 / tau_e
                    in Inr \<lparr>x = x a + prefac * dx,
                            y = y a + prefac * dy,
                            z = z a + (prefac * dz + Fin 2 * dvz / tau_inc)\<rparr>)
                 else Inr a))"


section \<open>The registered force\<close>

text \<open>
  \<^verbatim>\<open>rebx_inner_disc_edge(sim, force, particles, N)\<close>.  The helper \<^verbatim>\<open>rebx_com_force\<close>
  of the reboundx core, which walks the particles in the chosen frame and adds the
  accelerations, is a parameter; the function hands it the frame, the back-reaction
  flag, the name of the reference and the force on one body.
\<close>

definition rebx_inner_disc_edge ::
  "(reb_simulation \<Rightarrow> rebx_force \<Rightarrow> REBX_COORDINATES \<Rightarrow> int \<Rightarrow> string \<Rightarrow>
     (reb_simulation \<Rightarrow> rebx_force \<Rightarrow> reb_particle \<Rightarrow> reb_particle \<Rightarrow> rebx_error + reb_vec3d) \<Rightarrow>
     reb_particle list \<Rightarrow> int \<Rightarrow> 'r) \<Rightarrow>
   (dbl \<Rightarrow> reb_particle \<Rightarrow> reb_particle \<Rightarrow> reb_orbit \<times> int) \<Rightarrow>
   reb_simulation \<Rightarrow> rebx_force \<Rightarrow> reb_particle list \<Rightarrow> int \<Rightarrow> 'r" where
  "rebx_inner_disc_edge rebx_com_force reb_tools_particle_to_orbit_err sim force particles N =
     (let ptr = rebx_get_param (ap_coordinates force) ''coordinates'';
          coordinates = (case ptr of None \<Rightarrow> REBX_COORDINATES_JACOBI | Some c \<Rightarrow> c);
          back_reactions_inclusive = 1;
          reference_name = ''primary''
      in rebx_com_force sim force coordinates back_reactions_inclusive reference_name
           (rebx_calculating_orbits_with_inner_disc_edge reb_tools_particle_to_orbit_err)
           particles N)"


section \<open>Auxiliary notions and example data\<close>

text \<open>A real that is zero or at least \<open>2 ^ -1021\<close> in magnitude: halving it commutes with
  rounding, as no bit is lost to the subnormal range.\<close>

definition scales_exactly :: "real \<Rightarrow> bool" where
  "scales_exactly v = (v = 0 \<or> 2 powi (- 1021) \<le> \<bar>v\<bar>)"

text \<open>A body whose position is made of finite numbers.\<close>

definition finite_position :: "reb_particle \<Rightarrow> bool" where
  "finite_position p =
     (is_finite (reb_particle.x p) \<and> is_finite (reb_particle.y p) \<and> is_finite (reb_particle.z p))"

text \<open>A conversion that succeeds with semimajor axis 2, and one that fails the way
  REBOUND does: the error flag is set and every element is NaN.\<close>

definition example_conversion :: "dbl \<Rightarrow> reb_particle \<Rightarrow> reb_particle \<Rightarrow> reb_orbit \<times> int" where
  "example_conversion G' p source = (\<lparr>orbit_a = Fin 2, orbit_e = Fin 0, orbit_inc = Fin 0\<rparr>, 0)"

definition failed_conversion :: "dbl \<Rightarrow> reb_particle \<Rightarrow> reb_particle \<Rightarrow> reb_orbit \<times> int" where
  "failed_conversion G' p source = (\<lparr>orbit_a = NaN, orbit_e = NaN, orbit_inc = NaN\<rparr>, 1)"

definition example_sim :: reb_simulation where
  "example_sim = \<lparr>G = Fin 1\<rparr>"

text \<open>A force with the edge at radius 1 and width 0.1, one with the width left unset, and
  one with no parameter at all.\<close>

definition example_force :: rebx_force where
  "example_force =
     \<lparr>ap_double = [''inner_disc_edge'' \<mapsto> Fin 1, ''disc_edge_width'' \<mapsto> one_tenth],
      ap_coordinates = Map.empty\<rparr>"

definition force_without_width :: rebx_force where
  "force_without_width =
     \<lparr>ap_double = [''inner_disc_edge'' \<mapsto> Fin 1], ap_coordinates = Map.empty\<rparr>"

definition bare_force :: rebx_force where
  "bare_force = \<lparr>ap_double = Map.empty, ap_coordinates = Map.empty\<rparr>"

text \<open>A massless body in the plane \<open>y = z = 0\<close> at the given abscissa, with the given
  velocity in the plane \<open>vz = 0\<close>, carrying the given parameters.\<close>

definition particle_with :: "dbl \<Rightarrow> dbl \<Rightarrow> dbl \<Rightarrow> (string \<rightharpoonup> dbl) \<Rightarrow> reb_particle" where
  "particle_with px pvx pvy params =
     \<lparr>reb_particle.x = px, reb_particle.y = Fin 0, reb_particle.z = Fin 0,
      vx = pvx, vy = pvy, vz = Fin 0, m = Fin 0, ap = params\<rparr>"

text \<open>A star at rest at the origin, with or without mass, and a planet at \<open>(2, 0, 0)\<close>
  with velocity \<open>(1, 0, 0)\<close> carrying the given parameters.\<close>

definition example_star :: reb_particle where
  "example_star =
     \<lparr>reb_particle.x = Fin 0, reb_particle.y = Fin 0, reb_particle.z = Fin 0,
      vx = Fin 0, vy = Fin 0, vz = Fin 0, m = Fin 1, ap = Map.empty\<rparr>"

definition massless_star :: reb_particle where
  "massless_star =
     \<lparr>reb_particle.x = Fin 0, reb_particle.y = Fin 0, reb_particle.z = Fin 0,
      vx = Fin 0, vy = Fin 0, vz = Fin 0, m = Fin 0, ap = Map.empty\<rparr>"

definition example_planet :: "(string \<rightharpoonup> dbl) \<Rightarrow> reb_particle" where
  "example_planet params =
     \<lparr>reb_particle.x = Fin 2, reb_particle.y = Fin 0, reb_particle.z = Fin 0,
      vx = Fin 1, vy = Fin 0, vz = Fin 0, m = Fin 0, ap = params\<rparr>"

text \<open>A helper in the place of \<^verbatim>\<open>rebx_com_force\<close> that reports the frame, the
  back-reaction flag and the reference name it was called with.\<close>

definition report_call ::
  "reb_simulation \<Rightarrow> rebx_force \<Rightarrow> REBX_COORDINATES \<Rightarrow> int \<Rightarrow> string \<Rightarrow>
   (reb_simulation \<Rightarrow> rebx_force \<Rightarrow> reb_particle \<Rightarrow> reb_particle \<Rightarrow> rebx_error + reb_vec3d) \<Rightarrow>
   reb_particle list \<Rightarrow> int \<Rightarrow> REBX_COORDINATES \<times> int \<times> string" where
  "report_call sim force coordinates back_reactions_inclusive reference_name calculate particles N =
     (coordinates, back_reactions_inclusive, reference_name)"


section \<open>Rounding to the nearest integer\<close>

lemma rhe_of_int [simp]: "round_half_even (of_int n) = n"
  by (simp add: round_half_even_def)

lemma rhe_lower: "of_int \<lfloor>q\<rfloor> \<le> (of_int (round_half_even q) :: real)"
  by (simp add: round_half_even_def Let_def)

lemma rhe_ge_floor: "\<lfloor>q\<rfloor> \<le> round_half_even q"
  by (simp add: round_half_even_def Let_def)

lemma rhe_le_floor1: "round_half_even q \<le> \<lfloor>q\<rfloor> + 1"
  by (simp add: round_half_even_def Let_def)

lemma rhe_mono:
  assumes "p \<le> q"
  shows "round_half_even p \<le> round_half_even q"
proof (cases "\<lfloor>p\<rfloor> = \<lfloor>q\<rfloor>")
  case True
  with assms have "p - of_int \<lfloor>p\<rfloor> \<le> q - of_int \<lfloor>q\<rfloor>" by simp
  with True show ?thesis by (auto simp: round_half_even_def Let_def)
next
  case False
  with assms have "\<lfloor>p\<rfloor> < \<lfloor>q\<rfloor>" using floor_mono [OF assms] by linarith
  then have "round_half_even p \<le> \<lfloor>q\<rfloor>" using rhe_le_floor1 [of p] by linarith
  then show ?thesis using rhe_ge_floor [of q] by linarith
qed

lemma rhe_le_int: "q \<le> of_int n \<Longrightarrow> round_half_even q \<le> n"
  using rhe_mono [of q "of_int n"] by simp

lemma rhe_ge_int: "of_int n \<le> q \<Longrightarrow> n \<le> round_half_even q"
  using rhe_mono [of "of_int n" q] by simp

lemma rhe_minus: "round_half_even (- q) = - round_half_even q"
proof (cases "q = of_int \<lfloor>q\<rfloor>")
  case True
  then obtain n where "q = of_int n" ..
  then show ?thesis by (simp flip: of_int_minus)
next
  case False
  then have fl: "\<lfloor>- q\<rfloor> = - \<lfloor>q\<rfloor> - 1"
    by (simp add: floor_minus ceiling_altdef)
  have d: "- q - of_int (- \<lfloor>q\<rfloor> - 1) = 1 - (q - of_int \<lfloor>q\<rfloor>)" by simp
  have "0 < q - of_int \<lfloor>q\<rfloor>" using False
    by (metis diff_gt_0_iff_gt of_int_floor_le order_le_less)
  then show ?thesis
    unfolding round_half_even_def Let_def fl d by auto
qed


section \<open>Binades and the unit in the last place\<close>

lemma p2_pos [simp]: "0 < (2::real) powi e"
  by (simp add: power_int_def)

lemma p2_nonneg [simp]: "0 \<le> (2::real) powi e"
  using p2_pos [of e] by linarith

lemma p2_not_le0 [simp]: "\<not> (2::real) powi e \<le> 0"
  using p2_pos [of e] by linarith

lemma p2_mono: "e \<le> e' \<Longrightarrow> (2::real) powi e \<le> 2 powi e'"
  by (rule power_int_increasing) simp_all

lemma p2_strict: "e < e' \<Longrightarrow> (2::real) powi e < 2 powi e'"
  by (rule power_int_strict_increasing) simp_all

lemma p2_add: "(2::real) powi (a + b) = 2 powi a * 2 powi b"
  by (rule power_int_add) simp

lemma p2_diff: "(2::real) powi (a - b) = 2 powi a / 2 powi b"
  by (rule power_int_diff) simp

lemma binade:
  assumes "xr \<noteq> 0"
  shows "2 powi \<lfloor>log 2 \<bar>xr\<bar>\<rfloor> \<le> \<bar>xr\<bar>" and "\<bar>xr\<bar> < 2 powi (\<lfloor>log 2 \<bar>xr\<bar>\<rfloor> + 1)"
proof -
  have pos: "0 < \<bar>xr\<bar>" using assms by simp
  have "2 powr real_of_int \<lfloor>log 2 \<bar>xr\<bar>\<rfloor> \<le> \<bar>xr\<bar> \<and> \<bar>xr\<bar> < 2 powr (real_of_int \<lfloor>log 2 \<bar>xr\<bar>\<rfloor> + 1)"
    using floor_log_eq_powr_iff [OF pos, of 2 "\<lfloor>log 2 \<bar>xr\<bar>\<rfloor>"] by simp
  moreover have "real_of_int \<lfloor>log 2 \<bar>xr\<bar>\<rfloor> + 1 = real_of_int (\<lfloor>log 2 \<bar>xr\<bar>\<rfloor> + 1)" by simp
  ultimately show "2 powi \<lfloor>log 2 \<bar>xr\<bar>\<rfloor> \<le> \<bar>xr\<bar>" and "\<bar>xr\<bar> < 2 powi (\<lfloor>log 2 \<bar>xr\<bar>\<rfloor> + 1)"
    by (simp_all only: powr_real_of_int' [of 2, simplified])
qed

lemma floor_log2_eq:
  assumes "2 powi k \<le> \<bar>xr\<bar>" and "\<bar>xr\<bar> < 2 powi (k + 1)"
  shows "\<lfloor>log 2 \<bar>xr\<bar>\<rfloor> = k"
proof -
  have pos: "0 < \<bar>xr\<bar>" using assms(1) p2_pos [of k] by linarith
  have "2 powr real_of_int k \<le> \<bar>xr\<bar>" "\<bar>xr\<bar> < 2 powr (real_of_int k + 1)"
    using assms powr_real_of_int' [of 2 k] powr_real_of_int' [of 2 "k + 1"] by simp_all
  then show ?thesis using floor_log_eq_powr_iff [OF pos, of 2 k] by simp
qed

lemma ulp_exp_minus [simp]: "ulp_exp (- xr) = ulp_exp xr"
  by (simp add: ulp_exp_def)

lemma ulp_exp_ge: "- 1074 \<le> ulp_exp xr"
  by (simp add: ulp_exp_def)

lemma ulp_exp_eq:
  assumes "2 powi k \<le> \<bar>xr\<bar>" and "\<bar>xr\<bar> < 2 powi (k + 1)"
  shows "ulp_exp xr = max (k - 52) (- 1074)"
  by (simp add: ulp_exp_def floor_log2_eq [OF assms])

lemma binade_upper:
  assumes "xr \<noteq> 0"
  shows "\<bar>xr\<bar> < 2 powi (ulp_exp xr + 53)"
proof -
  have "\<lfloor>log 2 \<bar>xr\<bar>\<rfloor> + 1 \<le> ulp_exp xr + 53" by (simp add: ulp_exp_def)
  then have "(2::real) powi (\<lfloor>log 2 \<bar>xr\<bar>\<rfloor> + 1) \<le> 2 powi (ulp_exp xr + 53)" by (rule p2_mono)
  with binade(2) [OF assms] show ?thesis by linarith
qed

lemma binade_lower:
  assumes "xr \<noteq> 0" and "- 1074 < ulp_exp xr"
  shows "2 powi (ulp_exp xr + 52) \<le> \<bar>xr\<bar>"
proof -
  from assms(2) have "ulp_exp xr + 52 = \<lfloor>log 2 \<bar>xr\<bar>\<rfloor>" by (simp add: ulp_exp_def max_def split: if_splits)
  with binade(1) [OF assms(1)] show ?thesis by simp
qed

lemma ulp_exp_le:
  assumes "xr \<noteq> 0" and "\<bar>xr\<bar> < 2 powi (e + 53)" and "- 1074 \<le> e"
  shows "ulp_exp xr \<le> e"
proof (rule ccontr)
  assume "\<not> ulp_exp xr \<le> e"
  then have gt: "e < ulp_exp xr" by simp
  with assms(3) have "- 1074 < ulp_exp xr" by simp
  from binade_lower [OF assms(1) this] have "2 powi (ulp_exp xr + 52) \<le> \<bar>xr\<bar>" .
  moreover from gt have "(2::real) powi (e + 53) \<le> 2 powi (ulp_exp xr + 52)" by (intro p2_mono) simp
  ultimately show False using assms(2) by linarith
qed

lemma ulp_exp_mono:
  assumes "xr \<noteq> 0" and "\<bar>xr\<bar> \<le> \<bar>yr\<bar>"
  shows "ulp_exp xr \<le> ulp_exp yr"
proof -
  have yr: "yr \<noteq> 0" using assms by auto
  have "\<bar>xr\<bar> < 2 powi (ulp_exp yr + 53)" using binade_upper [OF yr] assms(2) by linarith
  then show ?thesis by (rule ulp_exp_le [OF assms(1) _ ulp_exp_ge])
qed


section \<open>Rounding to the nearest double\<close>

lemma rtd_zero [simp]: "round_to_double 0 = 0"
  by (simp add: round_to_double_def)

lemma rtd_minus: "round_to_double (- xr) = - round_to_double xr"
  by (simp add: round_to_double_def rhe_minus)

lemma rtd_form:
  "\<exists>n. \<bar>n\<bar> \<le> 2 ^ 53 \<and> round_to_double xr = of_int n * 2 powi ulp_exp xr"
proof (cases "xr = 0")
  case True
  then show ?thesis by (intro exI [of _ 0]) simp
next
  case False
  let ?u = "(2::real) powi ulp_exp xr"
  let ?n = "round_half_even (xr / ?u)"
  have "\<bar>xr\<bar> < 2 powi (ulp_exp xr + 53)" by (rule binade_upper [OF False])
  then have "\<bar>xr\<bar> < 2 ^ 53 * ?u" by (simp add: p2_add mult.commute)
  then have "\<bar>xr\<bar> / ?u < 2 ^ 53" by (simp add: pos_divide_less_eq)
  moreover have "\<bar>xr / ?u\<bar> = \<bar>xr\<bar> / ?u" by simp
  moreover have "xr / ?u \<le> \<bar>xr / ?u\<bar>" "- \<bar>xr / ?u\<bar> \<le> xr / ?u" by linarith+
  ultimately have "xr / ?u \<le> 2 ^ 53" "- (2 ^ 53) \<le> xr / ?u" by linarith+
  then have "xr / ?u \<le> of_int (2 ^ 53)" "of_int (- (2 ^ 53)) \<le> xr / ?u" by simp_all
  then have "?n \<le> 2 ^ 53" "- (2 ^ 53) \<le> ?n" by (auto intro: rhe_le_int rhe_ge_int)
  then have "\<bar>?n\<bar> \<le> 2 ^ 53" by simp
  then show ?thesis using False by (intro exI [of _ ?n]) (simp add: round_to_double_def)
qed

lemma rtd_exact_lt:
  assumes "\<bar>mi\<bar> < 2 ^ 53" and "- 1074 \<le> e"
  shows "round_to_double (of_int mi * 2 powi e) = of_int mi * 2 powi e"
proof (cases "mi = 0")
  case True
  then show ?thesis by simp
next
  case False
  let ?xr = "of_int mi * (2::real) powi e"
  have nz: "?xr \<noteq> 0" using False by simp
  have "real_of_int \<bar>mi\<bar> < real_of_int (2 ^ 53)" using assms(1) by (simp only: of_int_less_iff)
  then have "\<bar>real_of_int mi\<bar> < 2 ^ 53" by simp
  then have "\<bar>?xr\<bar> < 2 ^ 53 * 2 powi e" by (simp add: abs_mult)
  then have "\<bar>?xr\<bar> < 2 powi (e + 53)" by (simp add: p2_add mult.commute)
  from ulp_exp_le [OF nz this assms(2)] have le: "ulp_exp ?xr \<le> e" .
  define u where "u = ulp_exp ?xr"
  define d where "d = nat (e - u)"
  have e: "e = u + int d" using le by (simp add: d_def u_def)
  have pe: "(2::real) powi e = 2 powi u * 2 ^ d"
    by (subst e) (simp add: p2_add)
  have "of_int mi * (2 powi u * 2 ^ d) / 2 powi u = real_of_int (mi * 2 ^ d)" by simp
  then have "round_half_even (of_int mi * (2 powi u * 2 ^ d) / 2 powi u) = mi * 2 ^ d"
    by (simp only: rhe_of_int)
  then have "real_of_int (round_half_even (of_int mi * (2 powi u * 2 ^ d) / 2 powi u)) * 2 powi u
           = real_of_int mi * (2 powi u * 2 ^ d)" by simp
  then have "real_of_int (round_half_even (?xr / 2 powi u)) * 2 powi u = ?xr"
    by (simp only: pe)
  then show ?thesis using nz unfolding round_to_double_def u_def by simp
qed

lemma rtd_exact:
  assumes "\<bar>mi\<bar> \<le> 2 ^ 53" and "- 1074 \<le> e"
  shows "round_to_double (of_int mi * 2 powi e) = of_int mi * 2 powi e"
proof (cases "\<bar>mi\<bar> < 2 ^ 53")
  case True
  then show ?thesis by (rule rtd_exact_lt [OF _ assms(2)])
next
  case False
  with assms(1) have "\<bar>mi\<bar> = 2 ^ 53" by simp
  then consider "mi = 2 ^ 53" | "mi = - (2 ^ 53)" by (auto simp: abs_if split: if_splits)
  then show ?thesis
  proof cases
    case 1
    have "of_int mi * (2::real) powi e = of_int (2 ^ 52) * 2 powi (e + 1)"
      by (simp add: 1 p2_add)
    moreover have "round_to_double (of_int (2 ^ 52) * 2 powi (e + 1)) = of_int (2 ^ 52) * 2 powi (e + 1)"
      using assms(2) by (intro rtd_exact_lt) simp_all
    ultimately show ?thesis by simp
  next
    case 2
    have "of_int mi * (2::real) powi e = of_int (- (2 ^ 52)) * 2 powi (e + 1)"
      by (simp add: 2 p2_add)
    moreover have "round_to_double (of_int (- (2 ^ 52)) * 2 powi (e + 1)) = of_int (- (2 ^ 52)) * 2 powi (e + 1)"
      using assms(2) by (intro rtd_exact_lt) simp_all
    ultimately show ?thesis by simp
  qed
qed

lemma rtd_idem [simp]: "round_to_double (round_to_double xr) = round_to_double xr"
proof -
  obtain n where "\<bar>n\<bar> \<le> 2 ^ 53" "round_to_double xr = of_int n * 2 powi ulp_exp xr"
    using rtd_form by blast
  then show ?thesis using rtd_exact [OF _ ulp_exp_ge, of n xr] by simp
qed

lemma rtd_nonneg: "0 \<le> xr \<Longrightarrow> 0 \<le> round_to_double xr"
proof -
  assume "0 \<le> xr"
  then have "0 \<le> xr / 2 powi ulp_exp xr" by simp
  then have "of_int 0 \<le> xr / 2 powi ulp_exp xr" by simp
  then have "0 \<le> round_half_even (xr / 2 powi ulp_exp xr)" by (rule rhe_ge_int)
  then show ?thesis by (simp add: round_to_double_def)
qed

lemma rtd_mono_pos:
  assumes "0 < xr" and "xr \<le> yr"
  shows "round_to_double xr \<le> round_to_double yr"
proof -
  have nz: "xr \<noteq> 0" "yr \<noteq> 0" using assms by auto
  have le: "ulp_exp xr \<le> ulp_exp yr" using assms by (intro ulp_exp_mono) auto
  show ?thesis
  proof (cases "ulp_exp xr = ulp_exp yr")
    case True
    have "xr / 2 powi ulp_exp yr \<le> yr / 2 powi ulp_exp yr"
      using assms(2) by (simp add: divide_right_mono)
    then have "round_half_even (xr / 2 powi ulp_exp yr) \<le> round_half_even (yr / 2 powi ulp_exp yr)"
      by (rule rhe_mono)
    then have "real_of_int (round_half_even (xr / 2 powi ulp_exp yr)) * 2 powi ulp_exp yr
             \<le> real_of_int (round_half_even (yr / 2 powi ulp_exp yr)) * 2 powi ulp_exp yr"
      by (intro mult_right_mono) simp_all
    then show ?thesis using nz True by (simp add: round_to_double_def)
  next
    case False
    with le have lt: "ulp_exp xr < ulp_exp yr" by simp
    then have "- 1074 < ulp_exp yr" using ulp_exp_ge [of xr] by linarith
    from binade_lower [OF nz(2) this] assms have "2 powi (ulp_exp yr + 52) \<le> yr" by simp
    then have "2 ^ 52 * 2 powi ulp_exp yr \<le> yr" by (simp add: p2_add mult.commute)
    then have "of_int (2 ^ 52) \<le> yr / 2 powi ulp_exp yr" by (simp add: pos_le_divide_eq)
    then have "2 ^ 52 \<le> round_half_even (yr / 2 powi ulp_exp yr)" by (rule rhe_ge_int)
    then have "real_of_int (2 ^ 52) \<le> real_of_int (round_half_even (yr / 2 powi ulp_exp yr))"
      by (simp only: of_int_le_iff)
    then have "real_of_int (2 ^ 52) * 2 powi ulp_exp yr
             \<le> real_of_int (round_half_even (yr / 2 powi ulp_exp yr)) * 2 powi ulp_exp yr"
      by (intro mult_right_mono) simp_all
    then have low: "2 powi (ulp_exp yr + 52) \<le> round_to_double yr"
      using nz by (simp add: round_to_double_def p2_add mult.commute)
    obtain n where n: "\<bar>n\<bar> \<le> 2 ^ 53" "round_to_double xr = of_int n * 2 powi ulp_exp xr"
      using rtd_form by blast
    have "real_of_int \<bar>n\<bar> \<le> real_of_int (2 ^ 53)" using n(1) by (simp only: of_int_le_iff)
    then have "real_of_int n \<le> 2 ^ 53" by simp
    then have "real_of_int n * 2 powi ulp_exp xr \<le> 2 ^ 53 * 2 powi ulp_exp xr"
      by (intro mult_right_mono) simp_all
    also have "\<dots> = 2 powi (ulp_exp xr + 53)" by (simp add: p2_add mult.commute)
    also have "\<dots> \<le> 2 powi (ulp_exp yr + 52)" using lt by (intro p2_mono) simp
    finally show ?thesis using low n(2) by linarith
  qed
qed

lemma rtd_mono:
  assumes "xr \<le> yr"
  shows "round_to_double xr \<le> round_to_double yr"
proof -
  consider "0 < xr" | "xr \<le> 0" "0 \<le> yr" | "yr < 0" by linarith
  then show ?thesis
  proof cases
    case 1
    then show ?thesis using assms by (rule rtd_mono_pos)
  next
    case 2
    have "round_to_double xr \<le> 0" using rtd_nonneg [of "- xr"] 2(1) by (simp add: rtd_minus)
    moreover have "0 \<le> round_to_double yr" using 2(2) by (rule rtd_nonneg)
    ultimately show ?thesis by linarith
  next
    case 3
    then have "round_to_double (- yr) \<le> round_to_double (- xr)"
      using assms by (intro rtd_mono_pos) simp_all
    then show ?thesis by (simp add: rtd_minus)
  qed
qed

lemma rtd_eval:
  assumes "2 powi k \<le> \<bar>xr\<bar>" and "\<bar>xr\<bar> < 2 powi (k + 1)"
  shows "round_to_double xr =
           of_int (round_half_even (xr / 2 powi (max (k - 52) (- 1074)))) * 2 powi (max (k - 52) (- 1074))"
proof -
  have "xr \<noteq> 0" using assms(1) by auto
  then show ?thesis by (simp add: round_to_double_def ulp_exp_eq [OF assms])
qed

lemma rtd_half:
  assumes "2 powi (- 1021) \<le> \<bar>xr\<bar>"
  shows "round_to_double (xr / 2) = round_to_double xr / 2"
proof -
  have nz: "xr \<noteq> 0" using assms by auto
  define k where "k = \<lfloor>log 2 \<bar>xr\<bar>\<rfloor>"
  have b: "2 powi k \<le> \<bar>xr\<bar>" "\<bar>xr\<bar> < 2 powi (k + 1)" using binade [OF nz] by (simp_all add: k_def)
  have "(2::real) powi (- 1021) < 2 powi (k + 1)" using assms b(2) by linarith
  then have "- 1021 < k + 1" by (metis linorder_not_less p2_mono)
  then have k: "- 1021 \<le> k" by simp
  have u: "ulp_exp xr = k - 52" using ulp_exp_eq [OF b] k by simp
  have "2 powi (k - 1) \<le> \<bar>xr / 2\<bar>" "\<bar>xr / 2\<bar> < 2 powi (k - 1 + 1)"
    using b by (simp_all add: p2_diff p2_add)
  from ulp_exp_eq [OF this] k have u2: "ulp_exp (xr / 2) = k - 53" by simp
  have "(2::real) powi (k - 52) = 2 powi (k - 53) * 2" using p2_add [of "k - 53" 1] by simp
  then have q: "xr / 2 / 2 powi (k - 53) = xr / 2 powi (k - 52)"
    and h: "(2::real) powi (k - 53) = 2 powi (k - 52) / 2" by simp_all
  show ?thesis using nz by (simp add: round_to_double_def u u2 q h)
qed

lemma overflow_threshold_pos [simp]: "0 < overflow_threshold"
  by (simp add: overflow_threshold_def)

lemma rnd_cases:
  obtains (pinf) "rnd xr = PInf" "overflow_threshold \<le> round_to_double xr"
  | (ninf) "rnd xr = NInf" "round_to_double xr \<le> - overflow_threshold"
  | (fin) "rnd xr = Fin (round_to_double xr)" "\<bar>round_to_double xr\<bar> < overflow_threshold"
proof -
  consider "overflow_threshold \<le> round_to_double xr" | "round_to_double xr \<le> - overflow_threshold"
    | "\<bar>round_to_double xr\<bar> < overflow_threshold" by linarith
  then show ?thesis
  proof cases
    case 1
    then show ?thesis by (intro pinf) (simp_all add: rnd_def)
  next
    case 2
    moreover from 2 have "\<not> overflow_threshold \<le> round_to_double xr"
      using overflow_threshold_pos by linarith
    ultimately show ?thesis by (intro ninf) (simp_all add: rnd_def)
  next
    case 3
    then have "\<not> overflow_threshold \<le> round_to_double xr" "\<not> round_to_double xr \<le> - overflow_threshold"
      by linarith+
    with 3 show ?thesis by (intro fin) (simp_all add: rnd_def)
  qed
qed

lemma rnd_fin:
  assumes "\<bar>round_to_double xr\<bar> < overflow_threshold"
  shows "rnd xr = Fin (round_to_double xr)"
  using assms by (cases xr rule: rnd_cases) simp_all

lemma rnd_neq_NaN [simp]: "rnd xr \<noteq> NaN"
  by (cases xr rule: rnd_cases) simp_all

lemma rnd_zero [simp]: "rnd 0 = Fin 0"
  by (simp add: rnd_fin)

lemma rnd_exact:
  assumes "\<bar>mi\<bar> < 2 ^ 53" and "- 1074 \<le> e" and "e \<le> 971"
  shows "rnd (of_int mi * 2 powi e) = Fin (of_int mi * 2 powi e)"
proof -
  have r: "round_to_double (of_int mi * 2 powi e) = of_int mi * 2 powi e"
    using assms by (intro rtd_exact) simp_all
  have "real_of_int \<bar>mi\<bar> < real_of_int (2 ^ 53)" using assms(1) by (simp only: of_int_less_iff)
  then have "\<bar>real_of_int mi\<bar> < 2 ^ 53" by simp
  moreover have "(2::real) powi e \<le> 2 powi 971" using assms(3) by (rule p2_mono)
  ultimately have "\<bar>real_of_int mi\<bar> * 2 powi e < 2 ^ 53 * 2 powi 971"
    by (intro mult_less_le_imp_less) simp_all
  also have "(2::real) ^ 53 * 2 powi 971 = overflow_threshold"
    by (simp add: overflow_threshold_def)
  finally have "\<bar>real_of_int mi * 2 powi e\<bar> < overflow_threshold" by (simp add: abs_mult)
  then show ?thesis using rnd_fin [of "of_int mi * 2 powi e"] by (simp add: r)
qed

lemma rnd_int:
  assumes "\<bar>n\<bar> < 2 ^ 53"
  shows "rnd (of_int n) = Fin (of_int n)"
  using rnd_exact [OF assms, of 0] by simp

lemma rnd_idem:
  assumes "rnd xr = Fin yr"
  shows "rnd yr = Fin yr"
proof (cases xr rule: rnd_cases)
  case fin
  with assms have "yr = round_to_double xr" by simp
  with fin(2) show ?thesis using rnd_fin [of yr] by simp
qed (use assms in simp_all)


section \<open>Arithmetic and order of doubles\<close>

lemma Fin_plus [simp]: "Fin a + Fin b = rnd (a + b)"
  by (simp add: plus_dbl_def)

lemma Fin_minus [simp]: "Fin a - Fin b = rnd (a - b)"
  by (simp add: minus_dbl_def)

lemma Fin_times [simp]: "Fin a * Fin b = rnd (a * b)"
  by (simp add: times_dbl_def)

lemma Fin_divide [simp]: "b \<noteq> 0 \<Longrightarrow> Fin a / Fin b = rnd (a / b)"
  by (simp add: divide_dbl_def)

lemma Fin_less [simp]: "(Fin a < Fin b) = (a < b)"
  by (simp add: less_dbl_def)

lemma Fin_less_eq [simp]: "(Fin a \<le> Fin b) = (a \<le> b)"
  by (simp add: less_eq_dbl_def)

lemma NaN_compare [simp]:
  "\<not> NaN < a" "\<not> a < NaN" "\<not> NaN \<le> a" "\<not> a \<le> NaN"
  by (cases a; simp add: less_dbl_def less_eq_dbl_def)+

lemma inf_compare [simp]:
  "\<not> PInf < a" "\<not> a < NInf" "Fin b < PInf" "NInf < Fin b" "NInf < PInf"
  "Fin b \<le> PInf" "NInf \<le> Fin b" "NInf \<le> PInf" "PInf \<le> PInf" "NInf \<le> NInf"
  "\<not> PInf \<le> Fin b" "\<not> Fin b \<le> NInf" "\<not> PInf \<le> NInf"
  by (cases a; simp add: less_dbl_def less_eq_dbl_def)+

lemma NaN_arith [simp]:
  "NaN * a = NaN" "a * NaN = NaN" "NaN / a = NaN" "a / NaN = NaN" "NaN + a = NaN" "a + NaN = NaN"
  "NaN - a = NaN" "a - NaN = NaN"
  by (cases a; simp add: times_dbl_def divide_dbl_def plus_dbl_def minus_dbl_def)+

lemma le_PInf: "a \<noteq> NaN \<Longrightarrow> a \<le> PInf"
  by (cases a) simp_all

lemma NInf_le: "a \<noteq> NaN \<Longrightarrow> NInf \<le> a"
  by (cases a) simp_all

lemma dbl_le_trans: "(a::dbl) \<le> b \<Longrightarrow> b \<le> c \<Longrightarrow> a \<le> c"
  by (cases a; cases b; cases c) simp_all

lemma dbl_less_le_trans: "(a::dbl) < b \<Longrightarrow> b \<le> c \<Longrightarrow> a < c"
  by (cases a; cases b; cases c) simp_all


lemma dbl_le_not_less: "(a::dbl) \<le> b \<Longrightarrow> \<not> b < a"
  by (cases a; cases b) simp_all




lemma dbl_le_neq_NaN: "(a::dbl) \<le> b \<Longrightarrow> a \<noteq> NaN \<and> b \<noteq> NaN"
  by (cases a; cases b) simp_all

lemma is_finite_iff: "is_finite d \<longleftrightarrow> (\<exists>a. d = Fin a)"
  by (cases d) simp_all

lemma rnd_mono:
  assumes "u \<le> v"
  shows "rnd u \<le> rnd v"
proof -
  have r: "round_to_double u \<le> round_to_double v" using assms by (rule rtd_mono)
  show ?thesis
  proof (cases u rule: rnd_cases)
    case pinf
    with r have "overflow_threshold \<le> round_to_double v" by linarith
    then have "rnd v = PInf" by (simp add: rnd_def)
    with pinf show ?thesis by simp
  next
    case ninf
    then show ?thesis by (simp add: NInf_le)
  next
    case fin
    show ?thesis
    proof (cases v rule: rnd_cases)
      case pinf
      with fin show ?thesis by simp
    next
      case ninf
      with r fin(2) show ?thesis by simp
    next
      case fin': fin
      with fin r show ?thesis by simp
    qed
  qed
qed

lemma rnd_between:
  assumes "rnd lo = Fin lo" and "rnd hi = Fin hi" and "lo \<le> v" and "v \<le> hi"
  shows "\<exists>w. rnd v = Fin w \<and> lo \<le> w \<and> w \<le> hi"
proof -
  have "Fin lo \<le> rnd v" "rnd v \<le> Fin hi"
    using rnd_mono [OF assms(3)] rnd_mono [OF assms(4)] assms(1,2) by simp_all
  then show ?thesis by (cases "rnd v") simp_all
qed

lemma rnd_numeral [simp]:
  "\<bar>numeral n :: int\<bar> < 2 ^ 53 \<Longrightarrow> rnd (numeral n) = Fin (numeral n)"
  using rnd_int [of "numeral n"] by simp

lemma rnd_neg_numeral [simp]:
  "\<bar>numeral n :: int\<bar> < 2 ^ 53 \<Longrightarrow> rnd (- numeral n) = Fin (- numeral n)"
  using rnd_int [of "- numeral n"] by simp

lemma rnd_one [simp]: "rnd 1 = Fin 1"
  using rnd_int [of 1] by simp

lemma rnd_neg_one [simp]: "rnd (- 1) = Fin (- 1)"
  using rnd_int [of "- 1"] by simp

lemma rnd_dyadic:
  assumes "\<bar>n\<bar> < 2 ^ 53" and "j \<le> 1074"
  shows "rnd (of_int n / 2 ^ j) = Fin (of_int n / 2 ^ j)"
proof -
  have "(2::real) powi (- int j) = 1 / 2 ^ j" by (simp add: power_int_minus_divide)
  then show ?thesis using rnd_exact [OF assms(1), of "- int j"] assms(2) by simp
qed

text \<open>Rounding a given number: its binade and the rounded quotient decide the result.\<close>

lemma rnd_eval:
  assumes "2 powi k \<le> \<bar>v\<bar>" and "\<bar>v\<bar> < 2 powi (k + 1)"
    and "round_half_even (v / 2 powi (max (k - 52) (- 1074))) = n"
    and "\<bar>of_int n * 2 powi (max (k - 52) (- 1074))\<bar> < overflow_threshold"
  shows "rnd v = Fin (of_int n * 2 powi (max (k - 52) (- 1074)))"
proof -
  have "round_to_double v = of_int n * 2 powi (max (k - 52) (- 1074))"
    using rtd_eval [OF assms(1,2)] assms(3) by simp
  with assms(4) show ?thesis using rnd_fin [of v] by simp
qed

lemma rnd_le_PInf [simp]: "rnd v \<le> PInf"
  by (simp add: le_PInf)

lemma NInf_le_rnd [simp]: "NInf \<le> rnd v"
  by (simp add: NInf_le)

lemma inf_plus [simp]:
  "Fin a + PInf = PInf" "PInf + Fin a = PInf" "Fin a + NInf = NInf" "NInf + Fin a = NInf"
  "PInf + PInf = PInf" "NInf + NInf = NInf" "PInf + NInf = NaN" "NInf + PInf = NaN"
  by (simp_all add: plus_dbl_def)

lemma inf_minus [simp]:
  "Fin a - PInf = NInf" "PInf - Fin a = PInf" "Fin a - NInf = PInf" "NInf - Fin a = NInf"
  "PInf - NInf = PInf" "NInf - PInf = NInf" "PInf - PInf = NaN" "NInf - NInf = NaN"
  by (simp_all add: minus_dbl_def)

lemma inf_divide [simp]:
  "Fin a / PInf = Fin 0" "Fin a / NInf = Fin 0" "PInf / PInf = NaN" "PInf / NInf = NaN"
  "NInf / PInf = NaN" "NInf / NInf = NaN" "PInf / Fin 0 = PInf" "NInf / Fin 0 = NInf"
  by (simp_all add: divide_dbl_def)

lemma inf_times_pos [simp]:
  "0 < a \<Longrightarrow> Fin a * PInf = PInf" "0 < a \<Longrightarrow> PInf * Fin a = PInf"
  "0 < a \<Longrightarrow> Fin a * NInf = NInf" "0 < a \<Longrightarrow> NInf * Fin a = NInf"
  "PInf * PInf = PInf" "NInf * NInf = PInf" "PInf * NInf = NInf" "NInf * PInf = NInf"
  "Fin 0 * PInf = NaN" "PInf * Fin 0 = NaN" "Fin 0 * NInf = NaN" "NInf * Fin 0 = NaN"
  by (simp_all add: times_dbl_def inf_of_sign_def)

lemma inf_divide_pos [simp]:
  "0 < a \<Longrightarrow> PInf / Fin a = PInf" "0 < a \<Longrightarrow> NInf / Fin a = NInf"
  by (simp_all add: divide_dbl_def inf_of_sign_def)

lemma rnd_five_half [simp]: "rnd (11 / 2) = Fin (11 / 2)"
  using rnd_dyadic [of 11 1] by simp

lemma rnd_neg_five_half [simp]: "rnd (- (11 / 2)) = Fin (- (11 / 2))"
  using rnd_dyadic [of "- 11" 1] by simp

lemma rnd_half [simp]: "rnd (1 / 2) = Fin (1 / 2)"
  using rnd_dyadic [of 1 1] by simp

lemma rnd_three_half [simp]: "rnd (3 / 2) = Fin (3 / 2)"
  using rnd_dyadic [of 3 1] by simp


section \<open>Properties of the planet trap\<close>

lemma trap_NaN: "rebx_calculate_planet_trap NaN h dedge = Fin (- 10)"
  by (simp add: rebx_calculate_planet_trap_def)

lemma dmul_left_mono:
  assumes "0 < dv" and "(a::dbl) \<le> b"
  shows "Fin dv * a \<le> Fin dv * b"
proof (cases a)
  case (Fin av)
  show ?thesis
  proof (cases b)
    case (Fin bv)
    with \<open>a = Fin av\<close> assms have "dv * av \<le> dv * bv" by simp
    then show ?thesis using \<open>a = Fin av\<close> Fin by (simp add: rnd_mono)
  next
    case PInf
    then show ?thesis using \<open>a = Fin av\<close> assms(1)
      by (simp add: times_dbl_def inf_of_sign_def le_PInf)
  qed (use \<open>a = Fin av\<close> assms in simp_all)
next
  case PInf
  with assms show ?thesis by (cases b) (simp_all add: times_dbl_def inf_of_sign_def)
next
  case NInf
  with assms(2) have "b \<noteq> NaN" by (cases b) simp_all
  then have "Fin dv * b \<noteq> NaN" using assms(1)
    by (cases b) (simp_all add: times_dbl_def inf_of_sign_def)
  then show ?thesis using NInf assms(1) by (simp add: times_dbl_def inf_of_sign_def NInf_le)
next
  case NaN
  with assms show ?thesis by simp
qed

lemma window_ordered:
  assumes "Fin 0 < h" and "Fin 0 < dedge" and "r \<le> dedge * (Fin 1 - h)"
  shows "\<not> dedge * (Fin 1 + h) < r"
proof -
  have upper: "Fin 1 \<le> Fin 1 + h"
  proof (cases h)
    case (Fin hv)
    with assms(1) have "rnd 1 \<le> rnd (1 + hv)" by (intro rnd_mono) simp
    with Fin show ?thesis by simp
  qed (use assms in simp_all)
  consider (fin) dv hv where "dedge = Fin dv" "h = Fin hv" "0 < dv" "0 < hv"
    | (top) "dedge * (Fin 1 + h) = PInf"
  proof (cases dedge)
    case (Fin dv)
    show ?thesis
    proof (cases h)
      case (Fin hv)
      with \<open>dedge = Fin dv\<close> assms show ?thesis by (intro fin [of dv hv]) simp_all
    next
      case PInf
      with \<open>dedge = Fin dv\<close> assms(2) show ?thesis
        by (intro top) (simp add: plus_dbl_def times_dbl_def inf_of_sign_def)
    qed (use assms in simp_all)
  next
    case PInf
    from upper have "0 < sign_of (Fin 1 + h)" by (cases "Fin 1 + h") (simp_all add: sgn_if)
    with upper PInf show ?thesis
      by (intro top) (cases "Fin 1 + h"; simp add: times_dbl_def inf_of_sign_def)
  qed (use assms in simp_all)
  then show ?thesis
  proof cases
    case fin
    have "1 - hv \<le> 1 + hv" using fin(4) by simp
    then have "Fin 1 - h \<le> Fin 1 + h" using fin(2) by (simp add: rnd_mono)
    then have "dedge * (Fin 1 - h) \<le> dedge * (Fin 1 + h)"
      using fin(1,3) by (simp add: dmul_left_mono)
    with assms(3) have "r \<le> dedge * (Fin 1 + h)" by (rule dbl_le_trans)
    then show ?thesis by (rule dbl_le_not_less)
  next
    case top
    then show ?thesis by simp
  qed
qed

lemma dcos_finite:
  "\<exists>c. dcos (Fin a) = Fin c \<and> - 1 \<le> c \<and> c \<le> 1"
  using rnd_between [of "- 1" 1 "cos a"] by simp

lemma dcos_not_finite: "\<not> is_finite a \<Longrightarrow> dcos a = NaN"
  by (cases a) simp_all

lemma cosine_form_bounds:
  assumes "- 1 \<le> c" and "c \<le> 1"
  shows "\<exists>t. Fin 5.5 * Fin c - Fin 4.5 = Fin t \<and> - 10 \<le> t \<and> t \<le> 1"
proof -
  obtain w where w: "rnd (5.5 * c) = Fin w" "- (11 / 2) \<le> w" "w \<le> 11 / 2"
    using rnd_between [of "- (11 / 2)" "11 / 2" "5.5 * c"] assms by auto
  obtain t where "rnd (w - 4.5) = Fin t" "- 10 \<le> t" "t \<le> 1"
    using rnd_between [of "- 10" 1 "w - 4.5"] w(2,3) by auto
  with w(1) show ?thesis by simp
qed

lemma cosine_form_mono:
  assumes "c1 \<le> c2"
  shows "Fin 5.5 * Fin c1 - Fin 4.5 \<le> Fin 5.5 * Fin c2 - Fin 4.5"
proof -
  have le: "rnd (5.5 * c1) \<le> rnd (5.5 * c2)" using assms by (intro rnd_mono) simp
  have sub: "a - Fin 4.5 \<le> b - Fin 4.5" if "a \<le> b" for a b :: dbl
    using that by (cases a; cases b) (simp_all add: rnd_mono)
  show ?thesis using sub [OF le] by simp
qed

lemma one_plus_tiny: "rnd (1 + 1 / 2 ^ 60) = Fin 1"
  using rnd_eval [of 0 "1 + 1 / 2 ^ 60" "2 ^ 52"]
  by (simp add: round_half_even_def overflow_threshold_def)

lemma one_minus_tiny: "rnd (1 - 1 / 2 ^ 60) = Fin 1"
  using rnd_eval [of "- 1" "1 - 1 / 2 ^ 60" "2 ^ 53"]
  by (simp add: round_half_even_def overflow_threshold_def)

lemma one_plus_tenth: "rnd (1 + 3602879701896397 / 2 ^ 55) = Fin (4953959590107546 / 2 ^ 52)"
  using rnd_eval [of 0 "1 + 3602879701896397 / 2 ^ 55" "4953959590107546"]
  by (simp add: round_half_even_def overflow_threshold_def)

lemma one_minus_tenth: "rnd (1 - 3602879701896397 / 2 ^ 55) = Fin (8106479329266893 / 2 ^ 53)"
  using rnd_eval [of "- 1" "1 - 3602879701896397 / 2 ^ 55" "8106479329266893"]
  by (simp add: round_half_even_def overflow_threshold_def)

lemma rnd_outer_tenth: "rnd (4953959590107546 / 2 ^ 52) = Fin (4953959590107546 / 2 ^ 52)"
  using rnd_dyadic [of 4953959590107546 52] by simp

lemma rnd_inner_tenth: "rnd (8106479329266893 / 2 ^ 53) = Fin (8106479329266893 / 2 ^ 53)"
  using rnd_dyadic [of 8106479329266893 53] by simp

lemma rnd_big: "rnd (2 ^ 1024) = PInf"
proof -
  have "round_to_double (2 ^ 1024) = 2 ^ 1024"
    using rtd_exact [of 1 1024] by simp
  then show ?thesis by (simp add: rnd_def overflow_threshold_def)
qed

lemma rnd_bigger: "rnd (2 ^ 1025) = PInf"
proof -
  have "round_to_double (2 ^ 1025) = 2 ^ 1025"
    using rtd_exact [of 1 1025] by simp
  then show ?thesis by (simp add: rnd_def overflow_threshold_def)
qed

lemma trap_outer:
  "dedge * (Fin 1 + h) < r \<Longrightarrow> rebx_calculate_planet_trap r h dedge = Fin 1"
  by (simp add: rebx_calculate_planet_trap_def)

lemma trap_window:
  "\<not> dedge * (Fin 1 + h) < r \<Longrightarrow> dedge * (Fin 1 - h) < r \<Longrightarrow>
   rebx_calculate_planet_trap r h dedge =
     Fin 5.5 * dcos (((dedge * (Fin 1 + h) - r) * Fin 2 * M_PI) / (Fin 4 * h * dedge)) - Fin 4.5"
  by (simp add: rebx_calculate_planet_trap_def)

lemma trap_floor:
  "\<not> dedge * (Fin 1 + h) < r \<Longrightarrow> \<not> dedge * (Fin 1 - h) < r \<Longrightarrow>
   rebx_calculate_planet_trap r h dedge = Fin (- 10)"
  by (simp add: rebx_calculate_planet_trap_def)

lemma tenth_outer: "Fin 1 * (Fin 1 + one_tenth) = Fin (4953959590107546 / 2 ^ 52)"
  using one_plus_tenth rnd_outer_tenth by (simp add: one_tenth_def)

lemma tenth_inner: "Fin 1 * (Fin 1 - one_tenth) = Fin (8106479329266893 / 2 ^ 53)"
  using one_minus_tenth rnd_inner_tenth by (simp add: one_tenth_def)

lemma trap_example_outer: "rebx_calculate_planet_trap (Fin 2) one_tenth (Fin 1) = Fin 1"
  by (rule trap_outer) (simp add: tenth_outer)

lemma trap_example_floor: "rebx_calculate_planet_trap (Fin 0) one_tenth (Fin 1) = Fin (- 10)"
  by (rule trap_floor) (simp_all add: tenth_outer tenth_inner)

lemma trap_example_window:
  "rebx_calculate_planet_trap (Fin 1) one_tenth (Fin 1) =
     Fin 5.5 * dcos (((Fin 1 * (Fin 1 + one_tenth) - Fin 1) * Fin 2 * M_PI) / (Fin 4 * one_tenth * Fin 1))
       - Fin 4.5"
  by (rule trap_window) (simp_all add: tenth_outer tenth_inner)

lemma tiny_outer: "Fin 1 * (Fin 1 + Fin (1 / 2 ^ 60)) = Fin 1"
  using one_plus_tiny by simp

lemma tiny_inner: "Fin 1 * (Fin 1 - Fin (1 / 2 ^ 60)) = Fin 1"
  using one_minus_tiny by simp

lemma big_outer: "Fin (2 ^ 1023) * (Fin 1 + Fin 1) = PInf"
  using rnd_big by simp

lemma big_inner: "Fin (2 ^ 1023) * (Fin 1 - Fin 1) = Fin 0"
  by simp

lemma big_divisor: "Fin 4 * Fin 1 * Fin (2 ^ 1023) = PInf"
  using rnd_bigger by simp

lemma cosine_form_at_zero: "Fin 5.5 * dcos (Fin 0) - Fin 4.5 = Fin 1"
  by simp

lemma next_after_one: "rnd (1 + 1 / 2 ^ 52) = Fin (1 + 1 / 2 ^ 52)"
  using rnd_dyadic [of "2 ^ 52 + 1" 52] by (simp add: field_simps)

lemma cos_lower: "1 - t\<^sup>2 / 2 \<le> cos (t::real)"
proof -
  have "\<bar>sin (t / 2)\<bar> \<le> \<bar>t / 2\<bar>" by (rule abs_sin_x_le_abs_x)
  then have "(sin (t / 2))\<^sup>2 \<le> (t / 2)\<^sup>2" by (simp only: abs_le_square_iff)
  moreover have "cos t = 1 - 2 * (sin (t / 2))\<^sup>2" using cos_double_sin [of "t / 2"] by simp
  ultimately show ?thesis by (simp add: power2_eq_square)
qed

lemma cos_upper: "cos (t::real) \<le> 1 - t\<^sup>2 / 2 + t ^ 4 / 24"
proof -
  obtain u where u: "cos t = (\<Sum>k<4. cos_coeff k * t ^ k) + (cos (u + 1 / 2 * real 4 * pi) / fact 4) * t ^ 4"
    using Maclaurin_cos_expansion [of t 4] by blast
  have c: "cos_coeff (Suc 0) = 0" "cos_coeff (Suc (Suc 0)) = - 1 / 2"
    "cos_coeff (Suc (Suc (Suc 0))) = 0"
    by (simp_all add: cos_coeff_Suc sin_coeff_Suc)
  have s: "(\<Sum>k<4. cos_coeff k * t ^ k) = 1 - t\<^sup>2 / 2"
    by (simp add: eval_nat_numeral c)
  have "cos (u + 1 / 2 * real 4 * pi) = cos u" using cos_periodic [of u] by (simp add: algebra_simps)
  moreover have "fact 4 = (24::real)" by (simp add: eval_nat_numeral)
  ultimately have "cos t = 1 - t\<^sup>2 / 2 + cos u * t ^ 4 / 24" using u s by simp
  moreover have "cos u * t ^ 4 \<le> 1 * t ^ 4" by (intro mult_right_mono) simp_all
  ultimately show ?thesis by simp
qed


lemma cos_outside_window: "- (5 / 8) \<le> cos (4716158501352293 / 2 ^ 50 :: real)"
proof -
  define w :: real where "w = 4716158501352293 / 2 ^ 52"
  have lo: "9 / 20 \<le> cos w"
  proof -
    have "9 / 20 \<le> 1 - w\<^sup>2 / 2" by (simp add: w_def power2_eq_square)
    then show ?thesis using cos_lower [of w] by linarith
  qed
  have hi: "cos w \<le> 51 / 100"
  proof -
    have "1 - w\<^sup>2 / 2 + w ^ 4 / 24 \<le> 51 / 100" by (simp add: w_def power2_eq_square power4_eq_xxxx)
    then show ?thesis using cos_upper [of w] by linarith
  qed
  have "(cos w)\<^sup>2 \<le> (51 / 100)\<^sup>2" using lo hi by (intro power_mono) simp_all
  then have "cos (2 * w) \<le> - (47 / 100)" by (simp add: cos_double_cos power2_eq_square)
  moreover have "(9 / 20)\<^sup>2 \<le> (cos w)\<^sup>2" using lo by (intro power_mono) simp_all
  then have "- (6 / 10) \<le> cos (2 * w)" by (simp add: cos_double_cos power2_eq_square)
  ultimately have "(47 / 100)\<^sup>2 \<le> (- cos (2 * w))\<^sup>2" by (intro power_mono) simp_all
  then have "(47 / 100)\<^sup>2 \<le> (cos (2 * w))\<^sup>2" by simp
  then have bound: "- (5 / 8) \<le> cos (2 * (2 * w))"
    unfolding cos_double_cos [of "2 * w"] by (simp add: power2_eq_square)
  have arg: "2 * (2 * w) = 4716158501352293 / 2 ^ 50" by (simp add: w_def)
  show ?thesis using bound unfolding arg .
qed

lemma cos_inside_window: "cos (6288211335136391 / 2 ^ 51 :: real) \<le> - (3 / 4)"
proof -
  define w :: real where "w = 6288211335136391 / 2 ^ 52"
  have lo: "0 \<le> cos w"
  proof -
    have "0 \<le> 1 - w\<^sup>2 / 2" by (simp add: w_def power2_eq_square)
    then show ?thesis using cos_lower [of w] by linarith
  qed
  have hi: "cos w \<le> 7 / 20"
  proof -
    have "1 - w\<^sup>2 / 2 + w ^ 4 / 24 \<le> 7 / 20" by (simp add: w_def power2_eq_square power4_eq_xxxx)
    then show ?thesis using cos_upper [of w] by linarith
  qed
  have "(cos w)\<^sup>2 \<le> (7 / 20)\<^sup>2" using lo hi by (intro power_mono) simp_all
  then have bound: "cos (2 * w) \<le> - (3 / 4)" by (simp add: cos_double_cos power2_eq_square)
  have arg: "2 * w = 6288211335136391 / 2 ^ 51" by (simp add: w_def)
  show ?thesis using bound unfolding arg .
qed

lemma narrow_plus: "Fin 1 + Fin (3 / 2 ^ 54) = Fin (1 + 1 / 2 ^ 52)"
  using rnd_eval [of 0 "1 + 3 / 2 ^ 54" "2 ^ 52 + 1"]
  by (simp add: round_half_even_def overflow_threshold_def)

lemma narrow_minus: "Fin 1 - Fin (3 / 2 ^ 54) = Fin (1 - 1 / 2 ^ 52)"
  using rnd_eval [of "- 1" "1 - 3 / 2 ^ 54" "2 ^ 53 - 2"]
  by (simp add: round_half_even_def overflow_threshold_def)

lemma narrow_outer_product: "Fin (3 / 2) * Fin (1 + 1 / 2 ^ 52) = Fin (3 / 2 + 1 / 2 ^ 51)"
  using rnd_eval [of 0 "3 / 2 * (1 + 1 / 2 ^ 52)" "3 * 2 ^ 51 + 2"]
  by (simp add: round_half_even_def overflow_threshold_def)

lemma narrow_inner_product: "Fin (3 / 2) * Fin (1 - 1 / 2 ^ 52) = Fin (3 / 2 - 1 / 2 ^ 51)"
  using rnd_eval [of 0 "3 / 2 * (1 - 1 / 2 ^ 52)" "3 * 2 ^ 51 - 2"]
  by (simp add: round_half_even_def overflow_threshold_def)

lemma narrow_outer: "Fin (3 / 2) * (Fin 1 + Fin (3 / 2 ^ 54)) = Fin (3 / 2 + 1 / 2 ^ 51)"
  unfolding narrow_plus by (rule narrow_outer_product)

lemma narrow_inner: "Fin (3 / 2) * (Fin 1 - Fin (3 / 2 ^ 54)) = Fin (3 / 2 - 1 / 2 ^ 51)"
  unfolding narrow_minus by (rule narrow_inner_product)

lemma narrow_divisor: "Fin 4 * Fin (3 / 2 ^ 54) * Fin (3 / 2) = Fin (9 / 2 ^ 53)"
  using rnd_dyadic [of 3 52] rnd_dyadic [of 9 53] by simp

lemma narrow_numerator_1:
  "(Fin (3 / 2 + 1 / 2 ^ 51) - Fin (3 / 2 - 1 / 2 ^ 52)) * Fin 2 * M_PI = Fin (2652839157010665 / 2 ^ 99)"
  using rnd_dyadic [of 3 52] rnd_dyadic [of 3 51] rnd_dyadic [of 2652839157010665 99]
  by (simp add: M_PI_def)

lemma narrow_numerator_2:
  "(Fin (3 / 2 + 1 / 2 ^ 51) - Fin (3 / 2)) * Fin 2 * M_PI = Fin (884279719003555 / 2 ^ 98)"
  using rnd_dyadic [of 1 51] rnd_dyadic [of 1 50] rnd_dyadic [of 884279719003555 98]
  by (simp add: M_PI_def)

lemma narrow_argument_1:
  "Fin (2652839157010665 / 2 ^ 99) / Fin (9 / 2 ^ 53) = Fin (4716158501352293 / 2 ^ 50)"
  using rnd_eval [of 2 "(2652839157010665 / 2 ^ 99) / (9 / 2 ^ 53)" 4716158501352293]
  by (simp add: round_half_even_def overflow_threshold_def)

lemma narrow_argument_2:
  "Fin (884279719003555 / 2 ^ 98) / Fin (9 / 2 ^ 53) = Fin (6288211335136391 / 2 ^ 51)"
  using rnd_eval [of 1 "(884279719003555 / 2 ^ 98) / (9 / 2 ^ 53)" 6288211335136391]
  by (simp add: round_half_even_def overflow_threshold_def)

lemma narrow_trap_1:
  "rebx_calculate_planet_trap (Fin (3 / 2 - 1 / 2 ^ 52)) (Fin (3 / 2 ^ 54)) (Fin (3 / 2)) =
     Fin 5.5 * dcos (Fin (4716158501352293 / 2 ^ 50)) - Fin 4.5"
proof -
  have outer: "\<not> Fin (3 / 2) * (Fin 1 + Fin (3 / 2 ^ 54)) < Fin (3 / 2 - 1 / 2 ^ 52)"
    unfolding narrow_outer by simp
  have inner: "Fin (3 / 2) * (Fin 1 - Fin (3 / 2 ^ 54)) < Fin (3 / 2 - 1 / 2 ^ 52)"
    unfolding narrow_inner by simp
  show ?thesis
    unfolding trap_window [OF outer inner] narrow_outer narrow_divisor
      narrow_numerator_1 narrow_argument_1 by (rule refl)
qed

lemma narrow_trap_2:
  "rebx_calculate_planet_trap (Fin (3 / 2)) (Fin (3 / 2 ^ 54)) (Fin (3 / 2)) =
     Fin 5.5 * dcos (Fin (6288211335136391 / 2 ^ 51)) - Fin 4.5"
proof -
  have outer: "\<not> Fin (3 / 2) * (Fin 1 + Fin (3 / 2 ^ 54)) < Fin (3 / 2)"
    unfolding narrow_outer by simp
  have inner: "Fin (3 / 2) * (Fin 1 - Fin (3 / 2 ^ 54)) < Fin (3 / 2)"
    unfolding narrow_inner by simp
  show ?thesis
    unfolding trap_window [OF outer inner] narrow_outer narrow_divisor
      narrow_numerator_2 narrow_argument_2 by (rule refl)
qed

lemma narrow_trap_1_lower:
  "Fin (- (127 / 16)) \<le> rebx_calculate_planet_trap (Fin (3 / 2 - 1 / 2 ^ 52)) (Fin (3 / 2 ^ 54)) (Fin (3 / 2))"
proof -
  obtain c where c: "dcos (Fin (4716158501352293 / 2 ^ 50)) = Fin c" using dcos_finite by blast
  have "rnd (- (5 / 8)) \<le> rnd (cos (4716158501352293 / 2 ^ 50))"
    using cos_outside_window by (rule rnd_mono)
  moreover have "rnd (- (5 / 8)) = Fin (- (5 / 8))" using rnd_dyadic [of "- 5" 3] by simp
  ultimately have "- (5 / 8) \<le> c" using c by simp
  then have "Fin 5.5 * Fin (- (5 / 8)) - Fin 4.5 \<le> Fin 5.5 * Fin c - Fin 4.5"
    by (rule cosine_form_mono)
  moreover have "Fin 5.5 * Fin (- (5 / 8)) - Fin 4.5 = Fin (- (127 / 16))"
    using rnd_dyadic [of "- 55" 4] rnd_dyadic [of "- 127" 4] by simp
  ultimately show ?thesis unfolding narrow_trap_1 c by simp
qed

lemma narrow_trap_2_upper:
  "rebx_calculate_planet_trap (Fin (3 / 2)) (Fin (3 / 2 ^ 54)) (Fin (3 / 2)) \<le> Fin (- (69 / 8))"
proof -
  obtain c where c: "dcos (Fin (6288211335136391 / 2 ^ 51)) = Fin c" using dcos_finite by blast
  have "rnd (cos (6288211335136391 / 2 ^ 51)) \<le> rnd (- (3 / 4))"
    using cos_inside_window by (rule rnd_mono)
  moreover have "rnd (- (3 / 4)) = Fin (- (3 / 4))" using rnd_dyadic [of "- 3" 2] by simp
  ultimately have "c \<le> - (3 / 4)" using c by simp
  then have "Fin 5.5 * Fin c - Fin 4.5 \<le> Fin 5.5 * Fin (- (3 / 4)) - Fin 4.5"
    by (rule cosine_form_mono)
  moreover have "Fin 5.5 * Fin (- (3 / 4)) - Fin 4.5 = Fin (- (69 / 8))"
    using rnd_dyadic [of "- 33" 3] rnd_dyadic [of "- 69" 3] by simp
  ultimately show ?thesis unfolding narrow_trap_2 c by simp
qed

lemma rnd_sandwich:
  assumes "0 \<le> u" and "u \<le> v" and "rnd v = Fin w"
  shows "\<exists>w'. rnd u = Fin w' \<and> 0 \<le> w' \<and> w' \<le> w"
proof -
  have "Fin 0 \<le> rnd u" using rnd_mono [OF assms(1)] by simp
  moreover have "rnd u \<le> Fin w" using rnd_mono [OF assms(2)] assms(3) by simp
  ultimately show ?thesis by (cases "rnd u") simp_all
qed

lemma finite_quotient_numerator:
  assumes "a / b = Fin v" and "Fin 0 < b"
  shows "\<exists>av. a = Fin av"
  using assms by (cases a; cases b) (simp_all add: divide_dbl_def inf_of_sign_def split: if_splits)

lemma finite_product_factor:
  assumes "a * Fin c = Fin v"
  shows "\<exists>av. a = Fin av"
  using assms by (cases a) (simp_all add: times_dbl_def inf_of_sign_def split: if_splits)

lemma finite_difference_terms:
  assumes "a - b = Fin v"
  shows "\<exists>av bv. a = Fin av \<and> b = Fin bv"
  using assms by (cases a; cases b) (simp_all add: minus_dbl_def)

lemma M_PI_pos: "M_PI = Fin (884279719003555 / 2 ^ 48) \<and> (0::real) < 884279719003555 / 2 ^ 48"
  by (simp add: M_PI_def)


section \<open>Claims about the planet trap\<close>

text \<open>
  Claim C3 as stated fails: at an edge at radius 1 of width \<open>2^-60\<close> both boundary radii
  \<open>dedge * (1 + h)\<close> and \<open>dedge * (1 - h)\<close> round to 1.  The radius \<open>r = dedge = 1\<close>
  lies strictly inside the window over the reals, where the cosine form is \<open>-4.5\<close>; the
  source compares it with the rounded boundary radii and returns \<open>-10\<close>.
\<close>

theorem trap_collapsed_window_counterexample:
  "(0::real) < 1 / 2 ^ 60
   \<and> (1::real) * (1 - 1 / 2 ^ 60) < 1 \<and> (1::real) \<le> 1 * (1 + 1 / 2 ^ 60)
   \<and> 5.5 * cos (((1 * (1 + 1 / 2 ^ 60) - 1) * 2 * pi) / (4 * (1 / 2 ^ 60) * 1)) - 4.5 = (- 4.5 :: real)
   \<and> rebx_calculate_planet_trap (Fin 1) (Fin (1 / 2 ^ 60)) (Fin 1) = Fin (- 10)"
proof -
  have "rebx_calculate_planet_trap (Fin 1) (Fin (1 / 2 ^ 60)) (Fin 1) = Fin (- 10)"
    by (rule trap_floor) (simp_all only: tiny_outer tiny_inner Fin_less less_irrefl not_False_eq_True)
  then show ?thesis by simp
qed

text \<open>
  Claim C3, amended.  With the boundary radii \<open>dedge * (1 + h)\<close> and \<open>dedge * (1 - h)\<close>,
  the comparisons and the cosine form all computed in double arithmetic, as the source
  computes them, the trap returns \<open>1\<close> when \<open>r > dedge * (1 + h)\<close>; the cosine form
  \<open>5.5 * cos (((dedge * (1 + h) - r) * 2 * M_PI) / (4 * h * dedge)) - 4.5\<close> when
  \<open>dedge * (1 - h) < r \<le> dedge * (1 + h)\<close>; and \<open>-10\<close> when \<open>r \<le> dedge * (1 - h)\<close>
  and \<open>h > 0\<close>, \<open>dedge > 0\<close>.  In particular \<open>trap (2, 0.1, 1) = 1\<close> and
  \<open>trap (0, 0.1, 1) = -10\<close>, and \<open>trap (1, 0.1, 1)\<close> is the cosine form computed in
  doubles, with no claim that it is \<open>-4.5\<close> exactly.
\<close>

theorem trap_piecewise:
  "(dedge * (Fin 1 + h) < r \<longrightarrow> rebx_calculate_planet_trap r h dedge = Fin 1)
   \<and> (dedge * (Fin 1 - h) < r \<and> r \<le> dedge * (Fin 1 + h) \<longrightarrow>
        rebx_calculate_planet_trap r h dedge =
          Fin 5.5 * dcos (((dedge * (Fin 1 + h) - r) * Fin 2 * M_PI) / (Fin 4 * h * dedge)) - Fin 4.5)
   \<and> (Fin 0 < h \<and> Fin 0 < dedge \<and> r \<le> dedge * (Fin 1 - h) \<longrightarrow>
        rebx_calculate_planet_trap r h dedge = Fin (- 10))
   \<and> rebx_calculate_planet_trap (Fin 2) one_tenth (Fin 1) = Fin 1
   \<and> rebx_calculate_planet_trap (Fin 0) one_tenth (Fin 1) = Fin (- 10)
   \<and> rebx_calculate_planet_trap (Fin 1) one_tenth (Fin 1) =
        Fin 5.5 * dcos (((Fin 1 * (Fin 1 + one_tenth) - Fin 1) * Fin 2 * M_PI) / (Fin 4 * one_tenth * Fin 1))
          - Fin 4.5"
proof (intro conjI impI)
  assume "dedge * (Fin 1 + h) < r"
  then show "rebx_calculate_planet_trap r h dedge = Fin 1"
    by (simp add: rebx_calculate_planet_trap_def)
next
  assume "dedge * (Fin 1 - h) < r \<and> r \<le> dedge * (Fin 1 + h)"
  then show "rebx_calculate_planet_trap r h dedge =
          Fin 5.5 * dcos (((dedge * (Fin 1 + h) - r) * Fin 2 * M_PI) / (Fin 4 * h * dedge)) - Fin 4.5"
    by (intro trap_window) (simp_all add: dbl_le_not_less)
next
  assume a: "Fin 0 < h \<and> Fin 0 < dedge \<and> r \<le> dedge * (Fin 1 - h)"
  then have "\<not> dedge * (Fin 1 + h) < r" by (intro window_ordered) simp_all
  moreover from a have "\<not> dedge * (Fin 1 - h) < r" by (intro dbl_le_not_less) simp
  ultimately show "rebx_calculate_planet_trap r h dedge = Fin (- 10)"
    by (simp add: rebx_calculate_planet_trap_def)
qed (rule trap_example_outer trap_example_floor trap_example_window)+

text \<open>The three branches at an edge at radius 4 of width one half, at the radii 7, 3
  and 2.\<close>

theorem trap_piecewise_witness:
  "rebx_calculate_planet_trap (Fin 7) (Fin (1 / 2)) (Fin 4) = Fin 1
   \<and> rebx_calculate_planet_trap (Fin 3) (Fin (1 / 2)) (Fin 4) =
        Fin 5.5 * dcos (((Fin 4 * (Fin 1 + Fin (1 / 2)) - Fin 3) * Fin 2 * M_PI) / (Fin 4 * Fin (1 / 2) * Fin 4))
          - Fin 4.5
   \<and> rebx_calculate_planet_trap (Fin 2) (Fin (1 / 2)) (Fin 4) = Fin (- 10)"
proof -
  have D: "Fin 4 * (Fin 1 + Fin (1 / 2)) = Fin 6" "Fin 4 * (Fin 1 - Fin (1 / 2)) = Fin 2"
    by simp_all
  show ?thesis
    using trap_piecewise [of "Fin 4" "Fin (1 / 2)" "Fin 7"]
      trap_piecewise [of "Fin 4" "Fin (1 / 2)" "Fin 3"]
      trap_piecewise [of "Fin 4" "Fin (1 / 2)" "Fin 2"]
    unfolding D by simp
qed

text \<open>
  Claim C4 as stated fails: for \<open>r = dedge = 2^1023\<close> and \<open>h = 1\<close> the products
  \<open>dedge * (1 + h)\<close> and \<open>4 * h * dedge\<close> overflow to infinity, the argument of the cosine
  is infinity divided by infinity, and the trap returns NaN, which is not in \<open>[-10, 1]\<close>.
\<close>

theorem trap_overflow_counterexample:
  "rebx_calculate_planet_trap (Fin (2 ^ 1023)) (Fin 1) (Fin (2 ^ 1023)) = NaN"
proof -
  have outer: "\<not> Fin (2 ^ 1023) * (Fin 1 + Fin 1) < Fin (2 ^ 1023)"
    unfolding big_outer by simp
  have inner: "Fin (2 ^ 1023) * (Fin 1 - Fin 1) < Fin (2 ^ 1023)"
    unfolding big_inner by simp
  have "rebx_calculate_planet_trap (Fin (2 ^ 1023)) (Fin 1) (Fin (2 ^ 1023)) =
     Fin 5.5 * dcos (((Fin (2 ^ 1023) * (Fin 1 + Fin 1) - Fin (2 ^ 1023)) * Fin 2 * M_PI)
                      / (Fin 4 * Fin 1 * Fin (2 ^ 1023))) - Fin 4.5"
    by (rule trap_window [OF outer inner])
  also have "\<dots> = NaN"
    unfolding big_outer big_divisor by (simp add: M_PI_def)
  finally show ?thesis .
qed

text \<open>
  Claim C4, amended.  For all doubles \<open>r\<close>, \<open>h\<close> and \<open>dedge\<close> the value of the trap lies
  in the closed interval \<open>[-10, 1]\<close> exactly when the call does not take the window branch
  with an argument of the cosine that is not a finite number (an infinity or NaN, from an
  overflow or a zero divisor).
\<close>

theorem trap_bounds:
  "(Fin (- 10) \<le> rebx_calculate_planet_trap r h dedge \<and> rebx_calculate_planet_trap r h dedge \<le> Fin 1)
   \<longleftrightarrow> \<not> (dedge * (Fin 1 - h) < r \<and> \<not> dedge * (Fin 1 + h) < r
          \<and> \<not> is_finite (((dedge * (Fin 1 + h) - r) * Fin 2 * M_PI) / (Fin 4 * h * dedge)))"
proof (cases "dedge * (Fin 1 + h) < r")
  case True
  then show ?thesis by (simp add: trap_outer)
next
  case outer: False
  show ?thesis
  proof (cases "dedge * (Fin 1 - h) < r")
    case False
    with outer show ?thesis by (simp add: trap_floor)
  next
    case True
    let ?arg = "((dedge * (Fin 1 + h) - r) * Fin 2 * M_PI) / (Fin 4 * h * dedge)"
    have t: "rebx_calculate_planet_trap r h dedge = Fin 5.5 * dcos ?arg - Fin 4.5"
      using outer True by (rule trap_window)
    show ?thesis
    proof (cases "is_finite ?arg")
      case True
      then obtain a where "?arg = Fin a" by (auto simp: is_finite_iff)
      moreover obtain c where "dcos (Fin a) = Fin c" "- 1 \<le> c" "c \<le> 1"
        using dcos_finite by blast
      moreover obtain v where "Fin 5.5 * Fin c - Fin 4.5 = Fin v" "- 10 \<le> v" "v \<le> 1"
        using cosine_form_bounds [OF \<open>- 1 \<le> c\<close> \<open>c \<le> 1\<close>] by blast
      ultimately show ?thesis using True t by simp
    next
      case False
      then have "dcos ?arg = NaN" by (rule dcos_not_finite)
      with False outer \<open>dedge * (Fin 1 - h) < r\<close> show ?thesis by (simp add: t)
    qed
  qed
qed

text \<open>The bounds at radius 5 in the window of an edge at radius 4 of width one half,
  where the argument of the cosine is the finite number \<open>M_PI / 4\<close>.\<close>

theorem trap_bounds_witness:
  "Fin (- 10) \<le> rebx_calculate_planet_trap (Fin 5) (Fin (1 / 2)) (Fin 4)
   \<and> rebx_calculate_planet_trap (Fin 5) (Fin (1 / 2)) (Fin 4) \<le> Fin 1
   \<and> ((Fin 4 * (Fin 1 + Fin (1 / 2)) - Fin 5) * Fin 2 * M_PI) / (Fin 4 * Fin (1 / 2) * Fin 4)
       = Fin (884279719003555 / 2 ^ 50)"
proof -
  have a: "((Fin 4 * (Fin 1 + Fin (1 / 2)) - Fin 5) * Fin 2 * M_PI) / (Fin 4 * Fin (1 / 2) * Fin 4)
       = Fin (884279719003555 / 2 ^ 50)"
    using rnd_dyadic [of 884279719003555 47] rnd_dyadic [of 884279719003555 50]
    by (simp add: M_PI_def)
  show ?thesis
    using trap_bounds [of "Fin 5" "Fin (1 / 2)" "Fin 4"] unfolding a by simp
qed




text \<open>
  Claim C6 as stated fails: at an edge at radius \<open>3/2\<close> of width \<open>3 * 2^-54\<close> the radii
  \<open>r1 = 3/2 - 2^-52\<close> and \<open>r2 = 3/2\<close> lie in the window, over the reals and in doubles,
  and the trap at \<open>r1\<close> is above the trap at \<open>r2\<close>.  The rounded boundary radius
  \<open>dedge * (1 + h)\<close> is \<open>3/2 + 2^-51\<close>, which puts the argument of the cosine at \<open>r1\<close>
  near \<open>4 * pi / 3\<close>, past \<open>pi\<close>, where the cosine rises again.
\<close>

theorem trap_not_monotone_counterexample:
  "Fin (3 / 2) * (Fin 1 - Fin (3 / 2 ^ 54)) < Fin (3 / 2 - 1 / 2 ^ 52)
   \<and> Fin (3 / 2 - 1 / 2 ^ 52) \<le> Fin (3 / 2)
   \<and> Fin (3 / 2) \<le> Fin (3 / 2) * (Fin 1 + Fin (3 / 2 ^ 54))
   \<and> (3 / 2 :: real) * (1 - 3 / 2 ^ 54) \<le> 3 / 2 - 1 / 2 ^ 52
   \<and> (3 / 2 :: real) \<le> 3 / 2 * (1 + 3 / 2 ^ 54)
   \<and> \<not> rebx_calculate_planet_trap (Fin (3 / 2 - 1 / 2 ^ 52)) (Fin (3 / 2 ^ 54)) (Fin (3 / 2))
        \<le> rebx_calculate_planet_trap (Fin (3 / 2)) (Fin (3 / 2 ^ 54)) (Fin (3 / 2))"
proof -
  have "\<not> rebx_calculate_planet_trap (Fin (3 / 2 - 1 / 2 ^ 52)) (Fin (3 / 2 ^ 54)) (Fin (3 / 2))
        \<le> rebx_calculate_planet_trap (Fin (3 / 2)) (Fin (3 / 2 ^ 54)) (Fin (3 / 2))"
  proof
    assume "rebx_calculate_planet_trap (Fin (3 / 2 - 1 / 2 ^ 52)) (Fin (3 / 2 ^ 54)) (Fin (3 / 2))
        \<le> rebx_calculate_planet_trap (Fin (3 / 2)) (Fin (3 / 2 ^ 54)) (Fin (3 / 2))"
    with narrow_trap_1_lower have "Fin (- (127 / 16))
        \<le> rebx_calculate_planet_trap (Fin (3 / 2)) (Fin (3 / 2 ^ 54)) (Fin (3 / 2))"
      by (rule dbl_le_trans)
    then have "Fin (- (127 / 16)) \<le> Fin (- (69 / 8))"
      using narrow_trap_2_upper by (rule dbl_le_trans)
    then show False by simp
  qed
  moreover have "Fin (3 / 2) * (Fin 1 - Fin (3 / 2 ^ 54)) < Fin (3 / 2 - 1 / 2 ^ 52)"
    unfolding narrow_inner by simp
  moreover have "Fin (3 / 2) \<le> Fin (3 / 2) * (Fin 1 + Fin (3 / 2 ^ 54))"
    unfolding narrow_outer by simp
  ultimately show ?thesis by simp
qed

text \<open>
  Claim C6, amended.  For radii \<open>r1 \<le> r2 \<le> dedge * (1 + h)\<close>, the boundary radius
  computed in doubles, a positive divisor \<open>4 * h * dedge\<close> and an argument of the cosine
  at \<open>r1\<close> that is a finite number not above \<open>pi\<close>, the trap at \<open>r1\<close> is at most the trap
  at \<open>r2\<close>.
\<close>

theorem trap_monotone_in_window:
  assumes "r1 \<le> r2" and "r2 \<le> dedge * (Fin 1 + h)"
    and "Fin 0 < Fin 4 * h * dedge"
    and "((dedge * (Fin 1 + h) - r1) * Fin 2 * M_PI) / (Fin 4 * h * dedge) = Fin a1"
    and "a1 \<le> pi"
  shows "rebx_calculate_planet_trap r1 h dedge \<le> rebx_calculate_planet_trap r2 h dedge"
proof -
  let ?D = "dedge * (Fin 1 + h)"
  let ?Q = "Fin 4 * h * dedge"
  let ?arg = "\<lambda>r. ((?D - r) * Fin 2 * M_PI) / ?Q"
  let ?W = "\<lambda>r. Fin 5.5 * dcos (?arg r) - Fin 4.5"
  obtain mpi :: real where mpi: "M_PI = Fin mpi" "0 < mpi" using M_PI_pos by blast
  obtain n1 where n1: "(?D - r1) * Fin 2 * M_PI = Fin n1"
    using finite_quotient_numerator [OF assms(4,3)] by blast
  then obtain e1 where e1: "(?D - r1) * Fin 2 = Fin e1"
    unfolding mpi(1) using finite_product_factor by blast
  then obtain d1 where d1: "?D - r1 = Fin d1"
    using finite_product_factor by blast
  then obtain dp x1 where dp: "?D = Fin dp" and x1: "r1 = Fin x1"
    using finite_difference_terms by blast
  obtain x2 where x2: "r2 = Fin x2" "x1 \<le> x2" "x2 \<le> dp"
    using assms(1,2) unfolding dp x1 by (cases r2) simp_all
  have r1: "rnd (dp - x1) = Fin d1" using d1 unfolding dp x1 by simp
  obtain d2 where d2: "rnd (dp - x2) = Fin d2" "0 \<le> d2" "d2 \<le> d1"
    using rnd_sandwich [of "dp - x2" "dp - x1" d1] x2 r1 by auto
  have "rnd (d1 * 2) = Fin e1" using e1 unfolding d1 by simp
  then obtain e2 where e2: "rnd (d2 * 2) = Fin e2" "0 \<le> e2" "e2 \<le> e1"
    using rnd_sandwich [of "d2 * 2" "d1 * 2" e1] d2 by auto
  have "rnd (e1 * mpi) = Fin n1" using n1 unfolding e1 mpi(1) by simp
  then obtain n2 where n2: "rnd (e2 * mpi) = Fin n2" "0 \<le> n2" "n2 \<le> n1"
    using rnd_sandwich [of "e2 * mpi" "e1 * mpi" n1] e2 mpi(2) by auto
  have num2: "(?D - r2) * Fin 2 * M_PI = Fin n2"
    unfolding dp x2(1) mpi(1) by (simp add: d2 e2 n2)
  obtain a2 where a2: "?arg r2 = Fin a2" "0 \<le> a2" "a2 \<le> a1"
  proof (cases ?Q)
    case (Fin q)
    with assms(3) have q: "0 < q" by simp
    have "rnd (n1 / q) = Fin a1" using assms(4) q unfolding n1 Fin by simp
    then obtain a2 where "rnd (n2 / q) = Fin a2" "0 \<le> a2" "a2 \<le> a1"
      using rnd_sandwich [of "n2 / q" "n1 / q" a1] n2 q by (auto simp: divide_right_mono)
    then show ?thesis using q by (intro that [of a2]) (simp_all add: num2 Fin)
  next
    case PInf
    then have "a1 = 0" using assms(4) unfolding n1 by simp
    then show ?thesis by (intro that [of 0]) (simp_all add: num2 PInf)
  qed (use assms(3) in simp_all)
  have cos_le: "dcos (Fin a1) \<le> dcos (Fin a2)"
    using a2 assms(5) by (simp add: rnd_mono cos_monotone_0_pi_le)
  obtain c1 c2 where c: "dcos (Fin a1) = Fin c1" "dcos (Fin a2) = Fin c2" "- 1 \<le> c2" "c2 \<le> 1"
    using dcos_finite by blast
  with cos_le have "c1 \<le> c2" by simp
  then have W: "?W r1 \<le> ?W r2"
    unfolding assms(4) a2(1) c(1,2) by (rule cosine_form_mono)
  obtain t2 where t2: "?W r2 = Fin t2" "- 10 \<le> t2"
    unfolding a2(1) c(2) using cosine_form_bounds [OF c(3,4)] by blast
  have o2: "\<not> ?D < r2" using assms(2) by (rule dbl_le_not_less)
  have o1: "\<not> ?D < r1" using dbl_le_trans [OF assms(1,2)] by (rule dbl_le_not_less)
  show ?thesis
  proof (cases "dedge * (Fin 1 - h) < r1")
    case True
    then have "dedge * (Fin 1 - h) < r2" using assms(1) by (rule dbl_less_le_trans)
    then show ?thesis using True W by (simp add: trap_window [OF o1] trap_window [OF o2])
  next
    case False
    then have f: "rebx_calculate_planet_trap r1 h dedge = Fin (- 10)" using o1 by (simp add: trap_floor)
    show ?thesis
    proof (cases "dedge * (Fin 1 - h) < r2")
      case True
      then show ?thesis using t2 by (simp add: f trap_window [OF o2])
    next
      case False
      then show ?thesis using o2 by (simp add: f trap_floor)
    qed
  qed
qed

text \<open>The radii 5 and 6 at an edge at radius 4 of width one half; the argument of the
  cosine at radius 5 is \<open>M_PI / 4\<close>.\<close>

theorem trap_monotone_in_window_witness:
  "rebx_calculate_planet_trap (Fin 5) (Fin (1 / 2)) (Fin 4)
     \<le> rebx_calculate_planet_trap (Fin 6) (Fin (1 / 2)) (Fin 4)
   \<and> ((Fin 4 * (Fin 1 + Fin (1 / 2)) - Fin 5) * Fin 2 * M_PI) / (Fin 4 * Fin (1 / 2) * Fin 4)
       = Fin (884279719003555 / 2 ^ 50)
   \<and> (884279719003555 / 2 ^ 50 :: real) \<le> pi"
proof -
  have a: "((Fin 4 * (Fin 1 + Fin (1 / 2)) - Fin 5) * Fin 2 * M_PI) / (Fin 4 * Fin (1 / 2) * Fin 4)
       = Fin (884279719003555 / 2 ^ 50)"
    using rnd_dyadic [of 884279719003555 47] rnd_dyadic [of 884279719003555 50]
    by (simp add: M_PI_def)
  have p: "(884279719003555 / 2 ^ 50 :: real) \<le> pi"
    using pi_ge_two by simp
  have "Fin 5 \<le> Fin 6" "Fin 6 \<le> Fin 4 * (Fin 1 + Fin (1 / 2))" "Fin 0 < Fin 4 * Fin (1 / 2) * Fin 4"
    by simp_all
  from trap_monotone_in_window [OF this a p] a p show ?thesis by simp
qed


section \<open>Properties of the force on one body\<close>

lemmas example_defs = failed_conversion_def example_conversion_def example_sim_def example_force_def
  force_without_width_def bare_force_def example_star_def massless_star_def example_planet_def
  particle_with_def

lemma not_less_INFINITY [simp]: "\<not> INFINITY < INFINITY"
  by (simp add: INFINITY_def)

lemma Fin_less_INFINITY [simp]: "Fin t < INFINITY"
  by (simp add: INFINITY_def)

lemma Fin_div_INFINITY [simp]: "Fin t / INFINITY = Fin 0"
  by (simp add: INFINITY_def)

lemma error_flag_ignored:
  assumes "orbit_a (fst (conv (G sim) p source)) = orbit_a (fst (conv' (G sim) p source))"
  shows "rebx_calculating_orbits_with_inner_disc_edge conv sim force p source
       = rebx_calculating_orbits_with_inner_disc_edge conv' sim force p source"
  by (simp only: rebx_calculating_orbits_with_inner_disc_edge_def Let_def case_prod_beta assms)

lemma rnd_half_exact:
  assumes "scales_exactly v" and "rnd v = Fin w"
  shows "rnd (v / 2) = Fin (w / 2)"
proof (cases "v = 0")
  case True
  with assms(2) show ?thesis by simp
next
  case False
  with assms(1) have "2 powi (- 1021) \<le> \<bar>v\<bar>" by (simp add: scales_exactly_def)
  then have h: "round_to_double (v / 2) = round_to_double v / 2" by (rule rtd_half)
  have w: "w = round_to_double v" "\<bar>round_to_double v\<bar> < overflow_threshold"
    using assms(2) by (cases v rule: rnd_cases; simp)+
  then have "\<bar>round_to_double (v / 2)\<bar> < overflow_threshold" unfolding h by simp
  then show ?thesis using rnd_fin [of "v / 2"] by (simp add: h w(1))
qed

lemma scales_exactly_rnd:
  assumes "scales_exactly v" and "rnd v = Fin w"
  shows "scales_exactly w"
proof (cases "v = 0")
  case True
  with assms(2) show ?thesis by (simp add: scales_exactly_def)
next
  case False
  with assms(1) have v: "2 powi (- 1021) \<le> \<bar>v\<bar>" by (simp add: scales_exactly_def)
  have w: "w = round_to_double v" using assms(2) by (cases v rule: rnd_cases) simp_all
  have e: "round_to_double (2 powi (- 1021)) = 2 powi (- 1021)"
    using rtd_exact [of 1 "- 1021"] by simp
  consider "2 powi (- 1021) \<le> v" | "v \<le> - (2 powi (- 1021))" using v by linarith
  then have "2 powi (- 1021) \<le> \<bar>w\<bar>"
  proof cases
    case 1
    from rtd_mono [OF this] show ?thesis unfolding e w by linarith
  next
    case 2
    from rtd_mono [OF this] show ?thesis unfolding rtd_minus e w by linarith
  qed
  then show ?thesis by (simp add: scales_exactly_def)
qed

lemma half_of_product:
  assumes "scales_exactly (d * i)" and "Fin d * Fin i = Fin w"
  shows "Fin d * Fin i / Fin 2 = Fin (w / 2)" and "Fin (i / 2) * Fin d = Fin (w / 2)"
proof -
  have w: "rnd (d * i) = Fin w" using assms(2) by simp
  have "rnd w = Fin w" using w by (rule rnd_idem)
  moreover have "scales_exactly w" using assms(1) w by (rule scales_exactly_rnd)
  ultimately have "rnd (w / 2) = Fin (w / 2)" by (intro rnd_half_exact)
  then show "Fin d * Fin i / Fin 2 = Fin (w / 2)" unfolding assms(2) by simp
  have r: "rnd (d * i / 2) = Fin (w / 2)" using assms(1) w by (rule rnd_half_exact)
  have e: "i / 2 * d = d * i / 2" by simp
  show "Fin (i / 2) * Fin d = Fin (w / 2)" unfolding Fin_times e by (rule r)
qed

lemma rate_halved:
  assumes "scales_exactly (t / ta)" and "Fin t / Fin ta = Fin i" and "ta \<noteq> 0"
    and "Fin 2 * Fin ta = Fin (2 * ta)"
  shows "Fin t / (Fin 2 * Fin ta) = Fin (i / 2)"
proof -
  have "rnd (t / ta) = Fin i" using assms(2,3) by simp
  with assms(1) have r: "rnd (t / ta / 2) = Fin (i / 2)" by (rule rnd_half_exact)
  have e: "t / (2 * ta) = t / ta / 2" by simp
  have "Fin t / Fin (2 * ta) = rnd (t / (2 * ta))" by (rule Fin_divide) (use assms(3) in simp)
  then show ?thesis unfolding assms(4) e by (simp only: r)
qed


lemma fast_drag: "Fin (2 ^ 1023) * Fin 2 / Fin 2 = PInf"
  using rnd_big by simp

lemma fast_velocity: "rnd (2 ^ 1023) = Fin (2 ^ 1023)"
  using rnd_exact [of "2 ^ 52" 971] by simp

lemma zero_plus_product [simp]: "Fin 0 + a * b = a * b"
proof (cases "a * b")
  case (Fin w)
  then obtain av bv where "a = Fin av" "b = Fin bv"
    by (cases a; cases b) (simp_all add: times_dbl_def inf_of_sign_def split: if_splits)
  with Fin have "rnd (av * bv) = Fin w" by simp
  then have "rnd w = Fin w" by (rule rnd_idem)
  then show ?thesis by (simp add: Fin)
qed simp_all

lemma zero_plus_sum [simp]: "Fin 0 + (a + b) = a + b"
proof (cases "a + b")
  case (Fin w)
  then obtain av bv where "a = Fin av" "b = Fin bv"
    by (cases a; cases b) (simp_all add: plus_dbl_def)
  with Fin have "rnd (av + bv) = Fin w" by simp
  then have "rnd w = Fin w" by (rule rnd_idem)
  then show ?thesis by (simp add: Fin)
qed simp_all

lemma zero_drag: "is_finite d \<Longrightarrow> d * Fin 0 / Fin 2 = Fin 0"
  by (cases d) simp_all

lemma not_finite_div_zero: "\<not> is_finite (a / Fin 0)"
  by (cases a) (simp_all add: divide_dbl_def inf_of_sign_def)

lemma not_finite_div: "\<not> is_finite a \<Longrightarrow> \<not> is_finite (a / b)"
  by (cases a; cases b) (simp_all add: divide_dbl_def inf_of_sign_def)

lemma not_finite_mul: "\<not> is_finite a \<Longrightarrow> \<not> is_finite (a * b)"
  by (cases a; cases b) (simp_all add: times_dbl_def inf_of_sign_def)

lemma not_finite_add_right: "\<not> is_finite b \<Longrightarrow> \<not> is_finite (a + b)"
  by (cases a; cases b) (simp_all add: plus_dbl_def)

lemma not_finite_add_left: "\<not> is_finite a \<Longrightarrow> \<not> is_finite (a + b)"
  by (cases a; cases b) (simp_all add: plus_dbl_def)

lemma tiny_square: "rnd (1 / 2 ^ 1200) = Fin 0"
  using rnd_eval [of "- 1200" "1 / 2 ^ 1200" 0]
  by (simp add: round_half_even_def overflow_threshold_def)

lemma smallest_normal: "rnd (2 powi (- 1022)) = Fin (2 powi (- 1022))"
  using rnd_exact [of 1 "- 1022"] by simp

lemma square_lower:
  assumes "2 powi (- 511) \<le> \<bar>d\<bar>"
  shows "Fin (2 powi (- 1022)) \<le> Fin d * Fin d"
proof -
  have "(2::real) powi (- 511) * 2 powi (- 511) \<le> \<bar>d\<bar> * \<bar>d\<bar>"
    using assms by (intro mult_mono) simp_all
  moreover have "(2::real) powi (- 511) * 2 powi (- 511) = 2 powi (- 1022)"
    using p2_add [of "- 511" "- 511"] by simp
  moreover have "\<bar>d\<bar> * \<bar>d\<bar> = d * d" by simp
  ultimately have "2 powi (- 1022) \<le> d * d" by simp
  from rnd_mono [OF this] show ?thesis by (simp only: smallest_normal Fin_times)
qed

lemma square_nonneg: "a \<noteq> NaN \<Longrightarrow> Fin 0 \<le> a * a"
proof (cases a)
  case (Fin v)
  have "rnd 0 \<le> rnd (v * v)" by (intro rnd_mono) simp
  then show ?thesis by (simp add: Fin)
qed simp_all

lemma sum_lower_left:
  assumes "Fin c \<le> a" and "Fin 0 \<le> b" and "rnd c = Fin c"
  shows "Fin c \<le> a + b"
proof (cases a)
  case (Fin av)
  show ?thesis
  proof (cases b)
    case (Fin bv)
    with \<open>a = Fin av\<close> assms have "c \<le> av + bv" by simp
    from rnd_mono [OF this] show ?thesis by (simp add: assms(3) Fin \<open>a = Fin av\<close>)
  qed (use assms \<open>a = Fin av\<close> in simp_all)
next
  case PInf
  with assms(2) show ?thesis by (cases b) simp_all
qed (use assms in simp_all)

lemma sum_lower_right:
  assumes "Fin 0 \<le> a" and "Fin c \<le> b" and "rnd c = Fin c"
  shows "Fin c \<le> a + b"
proof (cases b)
  case (Fin bv)
  show ?thesis
  proof (cases a)
    case (Fin av)
    with \<open>b = Fin bv\<close> assms have "c \<le> av + bv" by simp
    from rnd_mono [OF this] show ?thesis by (simp add: assms(3) Fin \<open>b = Fin bv\<close>)
  qed (use assms \<open>b = Fin bv\<close> in simp_all)
next
  case PInf
  with assms(1) show ?thesis by (cases a) simp_all
qed (use assms in simp_all)

lemma sum_nonneg:
  assumes "Fin 0 \<le> a" and "Fin 0 \<le> b"
  shows "Fin 0 \<le> a + b"
  using sum_lower_left [OF assms rnd_zero] .

lemma squares_positive:
  assumes "dx \<noteq> NaN" and "dy \<noteq> NaN" and "dz \<noteq> NaN"
    and "dx = Fin d \<or> dy = Fin d \<or> dz = Fin d" and "2 powi (- 511) \<le> \<bar>d\<bar>"
  shows "Fin 0 < dx * dx + dy * dy + dz * dz"
proof -
  note nn = square_nonneg [OF assms(1)] square_nonneg [OF assms(2)] square_nonneg [OF assms(3)]
  note lo = square_lower [OF assms(5)]
  have "Fin (2 powi (- 1022)) \<le> dx * dx + dy * dy + dz * dz"
    using assms(4)
  proof (elim disjE)
    assume "dx = Fin d"
    then show ?thesis
      using lo nn by (intro sum_lower_left smallest_normal) simp_all
  next
    assume "dy = Fin d"
    then show ?thesis
      using lo nn by (intro sum_lower_left sum_lower_right smallest_normal) simp_all
  next
    assume "dz = Fin d"
    then show ?thesis
      using lo nn by (intro sum_lower_right sum_nonneg smallest_normal) simp_all
  qed
  moreover have "Fin 0 < Fin (2 powi (- 1022))" by simp
  ultimately show ?thesis by (rule dbl_less_le_trans [rotated])
qed

lemma tiny_position: "rnd (1 / 2 ^ 600) = Fin (1 / 2 ^ 600)"
  using rnd_dyadic [of 1 600] by simp

lemma tiny_double: "rnd (2 / 2 ^ 600) = Fin (2 / 2 ^ 600)"
  using rnd_dyadic [of 2 600] by simp

lemma tiny_square_product: "rnd (1 / (2 ^ 600 * 2 ^ 600)) = Fin 0"
proof -
  have "(2::real) ^ 600 * 2 ^ 600 = 2 ^ 1200" by (simp flip: power_add)
  then show ?thesis by (simp only: tiny_square)
qed

lemma coincident_squares:
  assumes "is_finite a"
  shows "(a - a) * (a - a) = Fin 0"
  using assms by (cases a) simp_all


section \<open>Claims about the force on one body\<close>

text \<open>
  Claim C1 at a failing input.  A planet carries \<open>tau_a = 1\<close>; the force has the edge at
  radius 1 and no width.  The claim has the force take \<open>inv_tau_a = 0\<close> and return an
  acceleration.  The source tests \<^verbatim>\<open>tau_a_ptr\<close> alone before it evaluates
  \<^verbatim>\<open>*h\<close> and \<^verbatim>\<open>*dedge\<close>: the call reads the width through a null pointer and no
  acceleration is returned.
\<close>

theorem missing_width_null_dereference:
  "rebx_calculating_orbits_with_inner_disc_edge example_conversion example_sim
     force_without_width (example_planet [''tau_a'' \<mapsto> Fin 1]) example_star
   = Inl NullPointerDereference"
  by (simp add: rebx_calculating_orbits_with_inner_disc_edge_def rebx_get_param_def example_defs)

text \<open>
  Claim C2 at a failing input.  The conversion fails for a planet around a star without
  mass; the claim has the radial damping skipped, an acceleration of zero here.  The force
  passes the NaN semimajor axis to the trap, which answers \<open>-10\<close>, and returns
  \<open>(-5, 0, 0)\<close>.
\<close>

theorem failed_conversion_still_drags:
  "rebx_calculating_orbits_with_inner_disc_edge failed_conversion example_sim
     example_force (example_planet [''tau_a'' \<mapsto> Fin 1]) massless_star
   = Inr \<lparr>x = Fin (- 5), y = Fin 0, z = Fin 0\<rparr>"
  by (simp add: rebx_calculating_orbits_with_inner_disc_edge_def rebx_get_param_def example_defs
      trap_NaN Let_def)

text \<open>
  Claim C7 as stated fails: a planet outside the edge with relative velocity
  \<open>(2^1023, 1, 0)\<close> and \<open>tau_a = 1/2\<close> has \<open>trap / tau_a = 2\<close>; the product
  \<open>dvx * 2\<close> overflows before it is halved and the force returns \<open>(infinity, 1, 0)\<close>,
  while \<open>k = trap / (2 * tau_a) = 1\<close> gives \<open>k * dvx = 2^1023\<close>.
\<close>

theorem drag_overflow_counterexample:
  "rebx_calculating_orbits_with_inner_disc_edge example_conversion example_sim example_force
     (particle_with (Fin 2) (Fin (2 ^ 1023)) (Fin 1) [''tau_a'' \<mapsto> Fin (1 / 2)]) example_star
   = Inr \<lparr>x = PInf, y = Fin 1, z = Fin 0\<rparr>
   \<and> rebx_calculate_planet_trap (Fin 2) one_tenth (Fin 1) / (Fin 2 * Fin (1 / 2)) * Fin (2 ^ 1023)
     = Fin (2 ^ 1023)"
proof -
  have "rebx_calculating_orbits_with_inner_disc_edge example_conversion example_sim example_force
     (particle_with (Fin 2) (Fin (2 ^ 1023)) (Fin 1) [''tau_a'' \<mapsto> Fin (1 / 2)]) example_star
   = Inr \<lparr>x = Fin (2 ^ 1023) * Fin 2 / Fin 2, y = Fin 1, z = Fin 0\<rparr>"
    using fast_velocity
    by (simp add: rebx_calculating_orbits_with_inner_disc_edge_def rebx_get_param_def example_defs
        trap_example_outer Let_def)
  moreover have "rebx_calculate_planet_trap (Fin 2) one_tenth (Fin 1) / (Fin 2 * Fin (1 / 2)) * Fin (2 ^ 1023)
     = Fin (2 ^ 1023)"
    using fast_velocity by (simp add: trap_example_outer)
  ultimately show ?thesis unfolding fast_drag by simp
qed

text \<open>
  Claim C7, amended.  In every call in which \<open>tau_a\<close> is set to a finite number other than
  zero, \<open>tau_e\<close> and \<open>tau_inc\<close> are not set and the width and the edge are set, the
  returned acceleration is \<open>k * (dvx, dvy, dvz)\<close> with \<open>k = trap / (2 * tau_a)\<close>, all in
  double arithmetic, provided that the trap and the relative velocity are finite, that
  \<open>2 * tau_a\<close>, \<open>trap / tau_a\<close> and the three products \<open>dv * (trap / tau_a)\<close> do not
  overflow, and that \<open>trap / tau_a\<close> and the three products are zero or of magnitude
  at least \<open>2^-1021\<close>, so that halving them is exact.
\<close>

theorem drag_parallel_to_velocity:
  assumes "ap p ''tau_a'' = Some (Fin ta)" and "ap p ''tau_e'' = None" and "ap p ''tau_inc'' = None"
    and "ap_double force ''disc_edge_width'' = Some h"
    and "ap_double force ''inner_disc_edge'' = Some dedge"
    and "rebx_calculate_planet_trap (orbit_a (fst (conv (G sim) p source))) h dedge = Fin t"
    and "ta \<noteq> 0" and "Fin 2 * Fin ta = Fin (2 * ta)"
    and "Fin t / Fin ta = Fin i" and "scales_exactly (t / ta)"
    and "vx p - vx source = Fin dvx" and "vy p - vy source = Fin dvy"
    and "vz p - vz source = Fin dvz"
    and "is_finite (Fin dvx * Fin i)" and "scales_exactly (dvx * i)"
    and "is_finite (Fin dvy * Fin i)" and "scales_exactly (dvy * i)"
    and "is_finite (Fin dvz * Fin i)" and "scales_exactly (dvz * i)"
  shows "\<exists>k. k = Fin t / (Fin 2 * Fin ta)
           \<and> rebx_calculating_orbits_with_inner_disc_edge conv sim force p source
             = Inr \<lparr>x = k * (vx p - vx source), y = k * (vy p - vy source),
                    z = k * (vz p - vz source)\<rparr>"
proof -
  have k: "Fin t / (Fin 2 * Fin ta) = Fin (i / 2)"
    using assms(10,9,7,8) by (rule rate_halved)
  obtain wx wy wz where w: "Fin dvx * Fin i = Fin wx" "Fin dvy * Fin i = Fin wy"
    "Fin dvz * Fin i = Fin wz"
    using assms(14,16,18) by (auto simp: is_finite_iff)
  have code: "rebx_calculating_orbits_with_inner_disc_edge conv sim force p source
      = Inr \<lparr>x = Fin dvx * Fin i / Fin 2, y = Fin dvy * Fin i / Fin 2, z = Fin dvz * Fin i / Fin 2\<rparr>"
    using assms(1-6) assms(9) assms(11-13)
    by (simp add: rebx_calculating_orbits_with_inner_disc_edge_def rebx_get_param_def Let_def
        case_prod_beta del: Fin_times Fin_divide)
  show ?thesis
    unfolding code k assms(11-13)
    using half_of_product [OF assms(15) w(1)] half_of_product [OF assms(17) w(2)]
      half_of_product [OF assms(19) w(3)]
    by (simp del: Fin_times Fin_divide)
qed

text \<open>The planet with \<open>tau_a = 1\<close> outside the edge: \<open>k\<close> is one half.\<close>

theorem drag_parallel_to_velocity_witness:
  "rebx_calculating_orbits_with_inner_disc_edge example_conversion example_sim
     example_force (example_planet [''tau_a'' \<mapsto> Fin 1]) example_star
   = Inr \<lparr>x = Fin (1 / 2), y = Fin 0, z = Fin 0\<rparr>
   \<and> rebx_calculate_planet_trap (Fin 2) one_tenth (Fin 1) / (Fin 2 * Fin 1) = Fin (1 / 2)"
  using drag_parallel_to_velocity [where p = "example_planet [''tau_a'' \<mapsto> Fin 1]"
      and ta = 1 and force = example_force and conv = example_conversion
      and sim = example_sim and source = example_star and h = one_tenth and dedge = "Fin 1"
      and t = 1 and i = 1 and dvx = 1 and dvy = 0 and dvz = 0]
  by (simp add: example_defs trap_example_outer scales_exactly_def)

text \<open>
  Claim C8 as stated fails: with no timescale set, a planet with \<open>vx = 2^1023\<close> and a
  reference body with \<open>vx = -2^1023\<close> have a relative velocity that overflows to
  infinity; the drag term is \<open>infinity * 0 / 2\<close>, and the force returns \<open>(NaN, 0, 0)\<close>
  although \<open>inv_tau_a = 0\<close>.
\<close>

theorem drag_not_vanishing_counterexample:
  "rebx_calculating_orbits_with_inner_disc_edge example_conversion example_sim bare_force
     (particle_with (Fin 2) (Fin (2 ^ 1023)) (Fin 0) Map.empty)
     (particle_with (Fin 0) (Fin (- (2 ^ 1023))) (Fin 0) Map.empty)
   = Inr \<lparr>x = NaN, y = Fin 0, z = Fin 0\<rparr>"
  using rnd_big
  by (simp add: rebx_calculating_orbits_with_inner_disc_edge_def rebx_get_param_def example_defs
      Let_def)

text \<open>
  Claim C8, amended.  With \<open>tau_e\<close> and \<open>tau_inc\<close> not set the returned acceleration is
  the drag term \<open>dv * inv_tau_a / 2\<close> alone, with \<open>inv_tau_a = 0\<close> when \<open>tau_a\<close> is not
  set and \<open>trap / tau_a\<close> when it is set together with the width and the edge: the term
  built on \<open>vdotr\<close> adds nothing.  With \<open>tau_a\<close> not set and a relative velocity made of
  finite numbers, the drag term is zero: the returned acceleration is the term built on
  \<open>vdotr\<close> alone when \<open>tau_e\<close> or \<open>tau_inc\<close> is set and zero otherwise, and it is the same
  under every force, whatever its width and edge.
\<close>

theorem missing_timescales_disable_channels:
  "(ap p ''tau_e'' = None \<and> ap p ''tau_inc'' = None \<longrightarrow>
      rebx_calculating_orbits_with_inner_disc_edge conv sim force p source =
        (case ap p ''tau_a'' of
           None \<Rightarrow> Inr \<lparr>x = (vx p - vx source) * Fin 0 / Fin 2,
                         y = (vy p - vy source) * Fin 0 / Fin 2,
                         z = (vz p - vz source) * Fin 0 / Fin 2\<rparr>
         | Some tau_a \<Rightarrow>
             (case (ap_double force ''disc_edge_width'', ap_double force ''inner_disc_edge'') of
                (Some h, Some dedge) \<Rightarrow>
                  Inr \<lparr>x = (vx p - vx source)
                            * (rebx_calculate_planet_trap (orbit_a (fst (conv (G sim) p source))) h dedge / tau_a)
                            / Fin 2,
                        y = (vy p - vy source)
                            * (rebx_calculate_planet_trap (orbit_a (fst (conv (G sim) p source))) h dedge / tau_a)
                            / Fin 2,
                        z = (vz p - vz source)
                            * (rebx_calculate_planet_trap (orbit_a (fst (conv (G sim) p source))) h dedge / tau_a)
                            / Fin 2\<rparr>
              | _ \<Rightarrow> Inl NullPointerDereference)))
   \<and> (ap p ''tau_a'' = None \<and> is_finite (vx p - vx source) \<and> is_finite (vy p - vy source)
        \<and> is_finite (vz p - vz source) \<longrightarrow>
      rebx_calculating_orbits_with_inner_disc_edge conv sim force p source =
        (let tau_e = (case ap p ''tau_e'' of None \<Rightarrow> INFINITY | Some t \<Rightarrow> t);
             tau_inc = (case ap p ''tau_inc'' of None \<Rightarrow> INFINITY | Some t \<Rightarrow> t);
             dx = reb_particle.x p - reb_particle.x source;
             dy = reb_particle.y p - reb_particle.y source;
             dz = reb_particle.z p - reb_particle.z source;
             dvx = vx p - vx source;
             dvy = vy p - vy source;
             dvz = vz p - vz source;
             prefac = Fin 2 * (dx * dvx + dy * dvy + dz * dvz) / (dx * dx + dy * dy + dz * dz) / tau_e
         in if tau_e < INFINITY \<or> tau_inc < INFINITY
            then Inr \<lparr>x = prefac * dx, y = prefac * dy, z = prefac * dz + Fin 2 * dvz / tau_inc\<rparr>
            else Inr \<lparr>x = Fin 0, y = Fin 0, z = Fin 0\<rparr>)
      \<and> (\<forall>force'. rebx_calculating_orbits_with_inner_disc_edge conv sim force' p source =
                    rebx_calculating_orbits_with_inner_disc_edge conv sim force p source))"
proof (intro conjI impI allI)
  assume "ap p ''tau_e'' = None \<and> ap p ''tau_inc'' = None"
  then show "rebx_calculating_orbits_with_inner_disc_edge conv sim force p source =
        (case ap p ''tau_a'' of
           None \<Rightarrow> Inr \<lparr>x = (vx p - vx source) * Fin 0 / Fin 2,
                         y = (vy p - vy source) * Fin 0 / Fin 2,
                         z = (vz p - vz source) * Fin 0 / Fin 2\<rparr>
         | Some tau_a \<Rightarrow>
             (case (ap_double force ''disc_edge_width'', ap_double force ''inner_disc_edge'') of
                (Some h, Some dedge) \<Rightarrow>
                  Inr \<lparr>x = (vx p - vx source)
                            * (rebx_calculate_planet_trap (orbit_a (fst (conv (G sim) p source))) h dedge / tau_a)
                            / Fin 2,
                        y = (vy p - vy source)
                            * (rebx_calculate_planet_trap (orbit_a (fst (conv (G sim) p source))) h dedge / tau_a)
                            / Fin 2,
                        z = (vz p - vz source)
                            * (rebx_calculate_planet_trap (orbit_a (fst (conv (G sim) p source))) h dedge / tau_a)
                            / Fin 2\<rparr>
              | _ \<Rightarrow> Inl NullPointerDereference))"
    by (simp add: rebx_calculating_orbits_with_inner_disc_edge_def rebx_get_param_def Let_def
        case_prod_beta split: option.splits)
next
  assume a: "ap p ''tau_a'' = None \<and> is_finite (vx p - vx source) \<and> is_finite (vy p - vy source)
        \<and> is_finite (vz p - vz source)"
  then show "rebx_calculating_orbits_with_inner_disc_edge conv sim force p source =
        (let tau_e = (case ap p ''tau_e'' of None \<Rightarrow> INFINITY | Some t \<Rightarrow> t);
             tau_inc = (case ap p ''tau_inc'' of None \<Rightarrow> INFINITY | Some t \<Rightarrow> t);
             dx = reb_particle.x p - reb_particle.x source;
             dy = reb_particle.y p - reb_particle.y source;
             dz = reb_particle.z p - reb_particle.z source;
             dvx = vx p - vx source;
             dvy = vy p - vy source;
             dvz = vz p - vz source;
             prefac = Fin 2 * (dx * dvx + dy * dvy + dz * dvz) / (dx * dx + dy * dy + dz * dz) / tau_e
         in if tau_e < INFINITY \<or> tau_inc < INFINITY
            then Inr \<lparr>x = prefac * dx, y = prefac * dy, z = prefac * dz + Fin 2 * dvz / tau_inc\<rparr>
            else Inr \<lparr>x = Fin 0, y = Fin 0, z = Fin 0\<rparr>)"
    by (simp add: rebx_calculating_orbits_with_inner_disc_edge_def rebx_get_param_def Let_def
        case_prod_beta zero_drag)
next
  fix force'
  assume a: "ap p ''tau_a'' = None \<and> is_finite (vx p - vx source) \<and> is_finite (vy p - vy source)
        \<and> is_finite (vz p - vz source)"
  then show "rebx_calculating_orbits_with_inner_disc_edge conv sim force' p source =
             rebx_calculating_orbits_with_inner_disc_edge conv sim force p source"
    by (simp add: rebx_calculating_orbits_with_inner_disc_edge_def rebx_get_param_def Let_def
        case_prod_beta)
qed

text \<open>The planet with no timescale set, and with \<open>tau_e = 4\<close> alone.\<close>

theorem missing_timescales_disable_channels_witness:
  "rebx_calculating_orbits_with_inner_disc_edge example_conversion example_sim
     bare_force (example_planet Map.empty) example_star
   = Inr \<lparr>x = Fin 0, y = Fin 0, z = Fin 0\<rparr>
   \<and> rebx_calculating_orbits_with_inner_disc_edge example_conversion example_sim
     bare_force (example_planet [''tau_e'' \<mapsto> Fin 4]) example_star
   = Inr \<lparr>x = Fin (1 / 2), y = Fin 0, z = Fin 0\<rparr>"
  using missing_timescales_disable_channels [where p = "example_planet Map.empty"
      and force = bare_force and conv = example_conversion
      and sim = example_sim and source = example_star]
    missing_timescales_disable_channels [where p = "example_planet [''tau_e'' \<mapsto> Fin 4]"
      and force = bare_force and conv = example_conversion
      and sim = example_sim and source = example_star]
    rnd_dyadic [of 1 2]
  by (simp add: example_defs Let_def)

text \<open>
  Claim C10 as stated fails: a planet at \<open>(2^-600, 0, 0)\<close> with \<open>tau_e = 100\<close> is not at
  the position of the reference body at the origin, yet the squared distance
  \<open>2^-1200\<close> underflows to zero; the prefactor divides by zero and the force returns
  \<open>(infinity, NaN, NaN)\<close>.
\<close>

theorem squared_distance_underflow_counterexample:
  "reb_particle.x (particle_with (Fin (1 / 2 ^ 600)) (Fin 1) (Fin 0) [''tau_e'' \<mapsto> Fin 100])
     \<noteq> reb_particle.x example_star
   \<and> rebx_calculating_orbits_with_inner_disc_edge example_conversion example_sim bare_force
       (particle_with (Fin (1 / 2 ^ 600)) (Fin 1) (Fin 0) [''tau_e'' \<mapsto> Fin 100]) example_star
     = Inr \<lparr>x = PInf, y = NaN, z = NaN\<rparr>"
  using tiny_position tiny_double tiny_square_product
  by (simp add: rebx_calculating_orbits_with_inner_disc_edge_def rebx_get_param_def example_defs
      Let_def inf_of_sign_def divide_dbl_def times_dbl_def plus_dbl_def)

text \<open>
  Claim C10, amended.  In every call in which \<open>tau_e\<close> or \<open>tau_inc\<close> is set below
  infinity and that returns an acceleration, with \<open>r2 = dx * dx + dy * dy + dz * dz\<close>
  computed in doubles: when \<open>r2\<close> is zero the prefactor divides by zero and no component
  of the acceleration is a finite number; \<open>r2\<close> is zero when the body is at the position
  of the reference body, at finite coordinates; and \<open>r2\<close> is positive, so that the
  prefactor does not divide by zero, when no coordinate difference is NaN and one of them
  is a finite number of magnitude at least \<open>2^-511\<close>.  Positions that merely differ do not
  make \<open>r2\<close> positive.
\<close>

theorem prefactor_needs_nonzero_r2:
  assumes block: "(case ap p ''tau_e'' of None \<Rightarrow> INFINITY | Some t \<Rightarrow> t) < INFINITY
        \<or> (case ap p ''tau_inc'' of None \<Rightarrow> INFINITY | Some t \<Rightarrow> t) < INFINITY"
    and ret: "rebx_calculating_orbits_with_inner_disc_edge conv sim force p source = Inr acc"
  shows "let dx = reb_particle.x p - reb_particle.x source;
             dy = reb_particle.y p - reb_particle.y source;
             dz = reb_particle.z p - reb_particle.z source;
             r2 = dx * dx + dy * dy + dz * dz
         in (r2 = Fin 0 \<longrightarrow> \<not> is_finite (x acc) \<and> \<not> is_finite (y acc) \<and> \<not> is_finite (z acc))
          \<and> (finite_position p \<and> reb_particle.x source = reb_particle.x p
                \<and> reb_particle.y source = reb_particle.y p
                \<and> reb_particle.z source = reb_particle.z p \<longrightarrow> r2 = Fin 0)
          \<and> (dx \<noteq> NaN \<and> dy \<noteq> NaN \<and> dz \<noteq> NaN \<and> (dx = Fin d \<or> dy = Fin d \<or> dz = Fin d)
                \<and> 2 powi (- 511) \<le> \<bar>d\<bar> \<longrightarrow> Fin 0 < r2)"
proof -
  define dx where "dx = reb_particle.x p - reb_particle.x source"
  define dy where "dy = reb_particle.y p - reb_particle.y source"
  define dz where "dz = reb_particle.z p - reb_particle.z source"
  define r2 where "r2 = dx * dx + dy * dy + dz * dz"
  define tau_e where "tau_e = (case ap p ''tau_e'' of None \<Rightarrow> INFINITY | Some t \<Rightarrow> t)"
  define tau_inc where "tau_inc = (case ap p ''tau_inc'' of None \<Rightarrow> INFINITY | Some t \<Rightarrow> t)"
  define vdotr where "vdotr = dx * (vx p - vx source) + dy * (vy p - vy source)
      + dz * (vz p - vz source)"
  define prefac where "prefac = Fin 2 * vdotr / r2 / tau_e"
  have form: "\<exists>ax ay az. acc = \<lparr>x = ax + prefac * dx, y = ay + prefac * dy,
        z = az + (prefac * dz + Fin 2 * (vz p - vz source) / tau_inc)\<rparr>"
    using block ret
    unfolding prefac_def vdotr_def r2_def dx_def dy_def dz_def tau_e_def tau_inc_def
    by (auto simp add: rebx_calculating_orbits_with_inner_disc_edge_def rebx_get_param_def
        Let_def case_prod_beta split: option.splits sum.splits if_splits)
  have first: "\<not> is_finite (x acc) \<and> \<not> is_finite (y acc) \<and> \<not> is_finite (z acc)"
    if zero: "r2 = Fin 0"
  proof -
    have "\<not> is_finite prefac"
      unfolding prefac_def zero by (intro not_finite_div not_finite_div_zero)
    then have "\<not> is_finite (prefac * dx)" "\<not> is_finite (prefac * dy)"
      "\<not> is_finite (prefac * dz + Fin 2 * (vz p - vz source) / tau_inc)"
      using not_finite_mul [of prefac] not_finite_add_left [of "prefac * dz"] by blast+
    with form show ?thesis using not_finite_add_right by auto
  qed
  have second: "r2 = Fin 0"
    if "finite_position p \<and> reb_particle.x source = reb_particle.x p
        \<and> reb_particle.y source = reb_particle.y p
        \<and> reb_particle.z source = reb_particle.z p"
    using that unfolding r2_def dx_def dy_def dz_def finite_position_def
    by (simp add: coincident_squares)
  have third: "Fin 0 < r2"
    if "dx \<noteq> NaN \<and> dy \<noteq> NaN \<and> dz \<noteq> NaN \<and> (dx = Fin d \<or> dy = Fin d \<or> dz = Fin d)
        \<and> 2 powi (- 511) \<le> \<bar>d\<bar>"
    unfolding r2_def using that by (intro squares_positive [of dx dy dz d]) simp_all
  from first second third show ?thesis
    unfolding Let_def r2_def dx_def dy_def dz_def by blast
qed

text \<open>The planet at \<open>(2, 0, 0)\<close> with \<open>tau_e = 4\<close>, and the same body placed on the
  reference body.\<close>

theorem prefactor_needs_nonzero_r2_witness:
  "Fin 0 < (Fin 2 - Fin 0) * (Fin 2 - Fin 0) + (Fin 0 - Fin 0) * (Fin 0 - Fin 0)
       + (Fin 0 - Fin 0) * (Fin 0 - Fin 0)
   \<and> rebx_calculating_orbits_with_inner_disc_edge example_conversion example_sim bare_force
       (example_planet [''tau_e'' \<mapsto> Fin 4]) example_star
     = Inr \<lparr>x = Fin (1 / 2), y = Fin 0, z = Fin 0\<rparr>
   \<and> rebx_calculating_orbits_with_inner_disc_edge example_conversion example_sim bare_force
       (particle_with (Fin 0) (Fin 1) (Fin 0) [''tau_e'' \<mapsto> Fin 4]) example_star
     = Inr \<lparr>x = NaN, y = NaN, z = NaN\<rparr>
   \<and> \<not> is_finite (x \<lparr>x = NaN, y = NaN, z = NaN\<rparr>)"
proof -
  have run: "rebx_calculating_orbits_with_inner_disc_edge example_conversion example_sim bare_force
       (example_planet [''tau_e'' \<mapsto> Fin 4]) example_star
     = Inr \<lparr>x = Fin (1 / 2), y = Fin 0, z = Fin 0\<rparr>"
    using rnd_dyadic [of 1 2]
    by (simp add: rebx_calculating_orbits_with_inner_disc_edge_def rebx_get_param_def example_defs
        Let_def)
  have met: "rebx_calculating_orbits_with_inner_disc_edge example_conversion example_sim bare_force
       (particle_with (Fin 0) (Fin 1) (Fin 0) [''tau_e'' \<mapsto> Fin 4]) example_star
     = Inr \<lparr>x = NaN, y = NaN, z = NaN\<rparr>"
    by (simp add: rebx_calculating_orbits_with_inner_disc_edge_def rebx_get_param_def example_defs
        Let_def inf_of_sign_def divide_dbl_def times_dbl_def plus_dbl_def)
  have apart: "Fin 0 < (Fin 2 - Fin 0) * (Fin 2 - Fin 0) + (Fin 0 - Fin 0) * (Fin 0 - Fin 0)
       + (Fin 0 - Fin 0) * (Fin 0 - Fin 0)"
    using prefactor_needs_nonzero_r2 [where p = "example_planet [''tau_e'' \<mapsto> Fin 4]"
        and source = example_star and force = bare_force and conv = example_conversion
        and sim = example_sim and acc = "\<lparr>x = Fin (1 / 2), y = Fin 0, z = Fin 0\<rparr>" and d = 2]
      run
    by (simp add: example_defs Let_def INFINITY_def)
  have together: "\<not> is_finite (x \<lparr>x = NaN, y = NaN, z = NaN\<rparr>)"
    using prefactor_needs_nonzero_r2 [where p = "particle_with (Fin 0) (Fin 1) (Fin 0) [''tau_e'' \<mapsto> Fin 4]"
        and source = example_star and force = bare_force and conv = example_conversion
        and sim = example_sim and acc = "\<lparr>x = NaN, y = NaN, z = NaN\<rparr>" and d = 0]
      met
    by (simp add: example_defs Let_def INFINITY_def finite_position_def)
  from apart run met together show ?thesis by blast
qed


section \<open>Claims about the registered force\<close>

text \<open>
  Claim C9.  When the parameter \<open>coordinates\<close> of the force is not set the Jacobi frame is
  handed to the helper; when it is set, the frame it names is; the back-reaction flag is
  always 1.
\<close>

theorem coordinates_default_jacobi:
  "(ap_coordinates force ''coordinates'' = None \<longrightarrow>
      rebx_inner_disc_edge com_force conv sim force particles N =
        com_force sim force REBX_COORDINATES_JACOBI 1 ''primary''
          (rebx_calculating_orbits_with_inner_disc_edge conv) particles N)
   \<and> (\<forall>c. ap_coordinates force ''coordinates'' = Some c \<longrightarrow>
      rebx_inner_disc_edge com_force conv sim force particles N =
        com_force sim force c 1 ''primary''
          (rebx_calculating_orbits_with_inner_disc_edge conv) particles N)"
  by (simp add: rebx_inner_disc_edge_def rebx_get_param_def)

text \<open>A force without parameters, and one set to barycentric coordinates.\<close>

theorem coordinates_default_jacobi_witness:
  "rebx_inner_disc_edge report_call example_conversion example_sim bare_force [] 0
     = (REBX_COORDINATES_JACOBI, 1, ''primary'')
   \<and> rebx_inner_disc_edge report_call example_conversion example_sim
       (bare_force\<lparr>ap_coordinates := [''coordinates'' \<mapsto> REBX_COORDINATES_BARYCENTRIC]\<rparr>) [] 0
     = (REBX_COORDINATES_BARYCENTRIC, 1, ''primary'')"
  using coordinates_default_jacobi [where force = bare_force and com_force = report_call
      and conv = example_conversion and sim = example_sim and particles = "[]" and N = 0]
    coordinates_default_jacobi [where force = "bare_force\<lparr>ap_coordinates := [''coordinates'' \<mapsto> REBX_COORDINATES_BARYCENTRIC]\<rparr>"
      and com_force = report_call
      and conv = example_conversion and sim = example_sim and particles = "[]" and N = 0]
  by (simp add: example_defs report_call_def)

end
